theory Spec2Isabelle
  imports Main "HOL-Library.AList" "HOL-Library.Char_ord" "HOL-Library.List_Lexorder"
    "HOL-Library.Multiset"
begin

section \<open>Data model (src/models/Tier.ts)\<close>

text \<open>
  \<^verbatim>\<open>Item\<close> is imported from \<^verbatim>\<open>@/models/Item\<close>; its fields are the ones the sources
  read and write: \<^verbatim>\<open>id\<close>, \<^verbatim>\<open>content\<close> and the optional \<^verbatim>\<open>imageUrl\<close>. Field names carry a
  prefix where the source's name is a constant of HOL.

  The TypeScript types are erased at run time. Where every value comes from typed code,
  \<^verbatim>\<open>id\<close>, \<^verbatim>\<open>content\<close> and \<^verbatim>\<open>name\<close> are strings (\<open>Item\<close>, \<open>Tier\<close>). The decoder builds its
  tiers from the result of \<^verbatim>\<open>JSON.parse\<close> without any check, so these fields can hold
  any parsed value or \<^verbatim>\<open>undefined\<close> there; the records are therefore parametric in the
  type of these fields and in the type of the elements of \<^verbatim>\<open>items\<close>.
\<close>

record 'v ItemOf =
  item_id :: 'v
  content :: 'v
  imageUrl :: "string option"

type_synonym Item = "string ItemOf"

datatype LabelPosition = Top | Left | Right

record ('v, 'i) TierOf =
  tier_id :: 'v
  name :: 'v
  items :: "'i list"
  labelPosition :: "LabelPosition option"
  placeholder :: "string option"

type_synonym Tier = "(string, Item) TierOf"

text \<open>Every exception the modelled code can raise is a \<^verbatim>\<open>TypeError\<close> or is caught.\<close>

datatype js_error = TypeError

text \<open>The template presets of src/models/Tier.ts.\<close>

definition templateTier :: "string \<Rightarrow> string \<Rightarrow> Tier" where
  "templateTier i n =
     \<lparr>tier_id = i, name = n, items = [], labelPosition = Some Left, placeholder = Some n\<rparr>"

definition tierTemplates :: "(string \<times> Tier list) list" where
  "tierTemplates =
     [(''3rows'', [templateTier ''tier-s'' ''S'', templateTier ''tier-a'' ''A'',
                  templateTier ''tier-b'' ''B'']),
      (''5rows'', [templateTier ''tier-s'' ''S'', templateTier ''tier-a'' ''A'',
                  templateTier ''tier-b'' ''B'', templateTier ''tier-c'' ''C'',
                  templateTier ''tier-f'' ''F'']),
      (''7rows'', [templateTier ''tier-ss'' ''SS'', templateTier ''tier-s'' ''S'',
                  templateTier ''tier-a'' ''A'', templateTier ''tier-b'' ''B'',
                  templateTier ''tier-c'' ''C'', templateTier ''tier-d'' ''D'',
                  templateTier ''tier-f'' ''F''])]"

definition template :: "string \<Rightarrow> Tier list" where
  "template k = (case map_of tierTemplates k of Some ts \<Rightarrow> ts | None \<Rightarrow> [])"

section \<open>Component state of TierListManager (src/components/TierListManager.tsx)\<close>

text \<open>
  The state the handlers read and write: the \<^verbatim>\<open>tiers\<close> state variable, the mutable
  reference \<^verbatim>\<open>previousTiersRef\<close> and the \<^verbatim>\<open>labelPosition\<close> state variable. Each handler is
  one transition on this state. The call of \<^verbatim>\<open>router.push\<close> in \<^verbatim>\<open>handleTiersUpdate\<close>
  comes after the two assignments and writes the address bar only; it is not part of the
  state. (The component passes the title as an additional first argument to
  \<^verbatim>\<open>encodeTierStateForURL\<close>, which the encoder below does not take; the two sources are
  not of the same revision in this respect.)
\<close>

record ManagerState =
  tiers :: "Tier list"
  previousTiersRef :: "Tier list"
  labelPositionState :: LabelPosition

definition handleTiersUpdate :: "Tier list \<Rightarrow> ManagerState \<Rightarrow> ManagerState" where
  "handleTiersUpdate updatedTiers s =
     (let s1 = s\<lparr>previousTiersRef := updatedTiers\<rparr>
      in s1\<lparr>tiers := updatedTiers\<rparr>)"

definition deleteAllItems :: "ManagerState \<Rightarrow> ManagerState" where
  "deleteAllItems s =
     (let s1 = s\<lparr>previousTiersRef := tiers s\<rparr>;
          emptyTiers = map (\<lambda>tier. tier\<lparr>items := []\<rparr>) (tiers s)
      in handleTiersUpdate emptyTiers s1)"

definition undoReset :: "ManagerState \<Rightarrow> ManagerState" where
  "undoReset s = handleTiersUpdate (previousTiersRef s) s"

definition undoDelete :: "ManagerState \<Rightarrow> ManagerState" where
  "undoDelete s = handleTiersUpdate (previousTiersRef s) s"

text \<open>
  \<^verbatim>\<open>handleItemsCreate\<close> reads the last element of the board; on an empty board
  \<^verbatim>\<open>lastTier\<close> is \<^verbatim>\<open>undefined\<close> and the assignment to \<^verbatim>\<open>lastTier.items\<close> throws.
\<close>

definition handleItemsCreate :: "Item list \<Rightarrow> ManagerState \<Rightarrow> js_error + ManagerState" where
  "handleItemsCreate newItems s =
     (let updatedTiers = tiers s;
          uniqueNewItems = filter (\<lambda>newItem.
             \<not> list_ex (\<lambda>tier.
                 list_ex (\<lambda>item. item_id item = item_id newItem \<or> content item = content newItem)
                   (items tier)) updatedTiers) newItems
      in if updatedTiers = [] then Inl TypeError
         else let lastTier = last updatedTiers;
                  lastTier' = lastTier\<lparr>items := items lastTier @ uniqueNewItems\<rparr>
              in Inr (handleTiersUpdate (butlast updatedTiers @ [lastTier']) s))"

definition handleUndoItemsCreate :: "string list \<Rightarrow> ManagerState \<Rightarrow> ManagerState" where
  "handleUndoItemsCreate itemIds s =
     handleTiersUpdate
       (map (\<lambda>tier. tier\<lparr>items := filter (\<lambda>item. item_id item \<notin> set itemIds) (items tier)\<rparr>)
          (tiers s)) s"

text \<open>
  \<^verbatim>\<open>new Map(entries)\<close> sets the entries one after the other: a key seen again keeps its
  place in the iteration order and takes the later value. \<^const>\<open>AList.update\<close> is this
  operation on an association list.
\<close>

definition allItemsMap :: "Tier list \<Rightarrow> (string \<times> (Item \<times> string)) list" where
  "allItemsMap ts =
     foldl (\<lambda>m (k, v). AList.update k v m) []
       (concat (map (\<lambda>tier. map (\<lambda>item. (item_id item, (item, tier_id tier))) (items tier)) ts))"

text \<open>
  \<^verbatim>\<open>newTiers.find(p)\<close> followed by \<^verbatim>\<open>targetTier.items.push(item)\<close>: the first tier
  satisfying \<^verbatim>\<open>p\<close> receives the item; \<^const>\<open>None\<close> when \<^verbatim>\<open>find\<close> returns \<^verbatim>\<open>undefined\<close>.
\<close>

fun pushToFirst :: "(Tier \<Rightarrow> bool) \<Rightarrow> Item \<Rightarrow> Tier list \<Rightarrow> Tier list option" where
  "pushToFirst p item [] = None"
| "pushToFirst p item (t # ts) =
     (if p t then Some (t\<lparr>items := items t @ [item]\<rparr> # ts)
      else map_option ((#) t) (pushToFirst p item ts))"

text \<open>
  The tier literal that \<^verbatim>\<open>handleTemplateChange\<close> and \<^verbatim>\<open>resetItems\<close> create as sink:
  id \<^verbatim>\<open>uncategorized\<close>, empty name, the current label position, no placeholder.
\<close>

definition uncategorizedTier :: "LabelPosition \<Rightarrow> Item list \<Rightarrow> Tier" where
  "uncategorizedTier lp xs =
     \<lparr>tier_id = ''uncategorized'', name = '''', items = xs,
      labelPosition = Some lp, placeholder = None\<rparr>"

definition distributeItem :: "LabelPosition \<Rightarrow> Tier list \<Rightarrow> Item \<times> string \<Rightarrow> Tier list" where
  "distributeItem lp newTiers entry =
     (case entry of (item, tierId) \<Rightarrow>
        (case pushToFirst (\<lambda>tier. tier_id tier = tierId) item newTiers of
           Some ts \<Rightarrow> ts
         | None \<Rightarrow>
            (case pushToFirst (\<lambda>tier. tier_id tier = ''uncategorized'') item newTiers of
               Some ts \<Rightarrow> ts
             | None \<Rightarrow>
                 newTiers @ [uncategorizedTier lp [item]])))"

definition templateChangeTiers :: "LabelPosition \<Rightarrow> Tier list \<Rightarrow> Tier list \<Rightarrow> Tier list" where
  "templateChangeTiers lp ts newTemplate =
     (let newTiers = map (\<lambda>templateTier. templateTier\<lparr>items := [], labelPosition := Some lp\<rparr>)
                       newTemplate
      in foldl (distributeItem lp) newTiers (map snd (allItemsMap ts)))"

definition handleTemplateChange :: "Tier list \<Rightarrow> ManagerState \<Rightarrow> ManagerState" where
  "handleTemplateChange newTemplate s =
     handleTiersUpdate (templateChangeTiers (labelPositionState s) (tiers s) newTemplate) s"

text \<open>
  \<^verbatim>\<open>Array.prototype.sort\<close> with a comparison function is stable, and for a consistent
  comparison function its result is the sorted arrangement that keeps equal elements in
  their order: the result of this insertion sort.
\<close>

fun insertBy :: "('a \<Rightarrow> 'a \<Rightarrow> int) \<Rightarrow> 'a \<Rightarrow> 'a list \<Rightarrow> 'a list" where
  "insertBy cmp x [] = [x]"
| "insertBy cmp x (y # ys) = (if cmp x y \<le> 0 then x # y # ys else y # insertBy cmp x ys)"

definition sortBy :: "('a \<Rightarrow> 'a \<Rightarrow> int) \<Rightarrow> 'a list \<Rightarrow> 'a list" where
  "sortBy cmp xs = foldr (insertBy cmp) xs []"

text \<open>
  \<^verbatim>\<open>String.prototype.localeCompare\<close> is the host's locale-sensitive collation; the
  repository does not define it, so \<^verbatim>\<open>resetItems\<close> takes it as the parameter
  \<open>localeCompare\<close>.
\<close>

definition resetItemsTiers ::
  "(string \<Rightarrow> string \<Rightarrow> int) \<Rightarrow> LabelPosition \<Rightarrow> Tier list \<Rightarrow> Tier list" where
  "resetItemsTiers localeCompare lp ts =
     (let allItems = sortBy (\<lambda>a b. localeCompare (content a) (content b))
                       (concat (map items ts));
          resetTiers = map (\<lambda>tier. tier\<lparr>items := []\<rparr>) ts
      in if resetTiers = [] \<or> tier_id (last resetTiers) \<noteq> ''uncategorized''
         then resetTiers @ [(uncategorizedTier lp [])\<lparr>items := allItems\<rparr>]
         else butlast resetTiers @ [(last resetTiers)\<lparr>items := allItems\<rparr>])"

definition resetItems :: "(string \<Rightarrow> string \<Rightarrow> int) \<Rightarrow> ManagerState \<Rightarrow> ManagerState" where
  "resetItems localeCompare s =
     (let s1 = s\<lparr>previousTiersRef := tiers s\<rparr>
      in handleTiersUpdate (resetItemsTiers localeCompare (labelPositionState s) (tiers s)) s1)"

text \<open>
  Case-sensitive lexicographic comparison of two strings by their character codes, the
  comparison the specification names for \<^verbatim>\<open>resetItems\<close>.
\<close>

definition codeUnitCompare :: "string \<Rightarrow> string \<Rightarrow> int" where
  "codeUnitCompare a b = (if a < b then - 1 else if a = b then 0 else 1)"

text \<open>
  The entries \<^verbatim>\<open>handleTemplateChange\<close> builds its origin map from, in the order of the
  board; the last entry of an item id on the board, which is the one the map keeps; and
  the id of the tier an item with a given origin tier id is put into.
\<close>

definition boardEntries :: "Tier list \<Rightarrow> (string \<times> (Item \<times> string)) list" where
  "boardEntries ts =
     concat (map (\<lambda>tier. map (\<lambda>item. (item_id item, (item, tier_id tier))) (items tier)) ts)"

definition lastOccurrence :: "Tier list \<Rightarrow> string \<Rightarrow> (Item \<times> string) option" where
  "lastOccurrence ts k = map_of (rev (boardEntries ts)) k"

definition destinationId :: "Tier list \<Rightarrow> string \<Rightarrow> string" where
  "destinationId newTemplate tid =
     (if tid \<in> set (map tier_id newTemplate) then tid else ''uncategorized'')"

text \<open>
  The invariant of the distribution loop: the tiers are those of the template, possibly
  with one more of id \<^verbatim>\<open>uncategorized\<close>, and every item lies in the tier its entry sends
  it to.
\<close>

definition placed :: "Tier list \<Rightarrow> (Item \<times> string) list \<Rightarrow> Tier list \<Rightarrow> bool" where
  "placed newTemplate es state =
     (set (map tier_id newTemplate) \<subseteq> set (map tier_id state)
    \<and> set (map tier_id state) \<subseteq> insert ''uncategorized'' (set (map tier_id newTemplate))
    \<and> (\<forall>t\<in>set state. \<forall>it\<in>set (items t).
          \<exists>tid. (it, tid) \<in> set es \<and> tier_id t = destinationId newTemplate tid))"

text \<open>
  The orphaned items of a reconciliation pass: the items of the origin map, in its
  iteration order, whose origin tier id is not the id of a tier of the new template.
\<close>

definition orphansOf :: "Tier list \<Rightarrow> (Item \<times> string) list \<Rightarrow> Item list" where
  "orphansOf newTemplate es =
     map fst (filter (\<lambda>e. snd e \<notin> set (map tier_id newTemplate)) es)"

section \<open>Values at run time\<close>

text \<open>
  The values \<^verbatim>\<open>JSON.parse\<close> returns. An object is the list of its own properties; a
  number is kept as an integer, as no decision of the code depends on the value of a
  number. \<open>jsval\<close> adds \<^verbatim>\<open>undefined\<close> (\<^const>\<open>None\<close>), the value of a missing property.
\<close>

datatype json =
    JNull
  | JBool bool
  | JNum int
  | JStr string
  | JArr "json list"
  | JObj "(string \<times> json) list"

type_synonym jsval = "json option"

text \<open>
  Reading one of the properties \<^verbatim>\<open>i\<close>, \<^verbatim>\<open>n\<close>, \<^verbatim>\<open>t\<close>, \<^verbatim>\<open>c\<close> of a parsed value: \<^verbatim>\<open>null\<close>
  throws; an object gives its own property or \<^verbatim>\<open>undefined\<close>; strings, numbers, booleans
  and arrays have no property of these names.
\<close>

fun readProperty :: "json \<Rightarrow> string \<Rightarrow> js_error + jsval" where
  "readProperty JNull k = Inl TypeError"
| "readProperty (JObj kvs) k = Inr (map_of kvs k)"
| "readProperty v k = Inr None"

text \<open>\<^verbatim>\<open>v.map(f)\<close> for a function \<^verbatim>\<open>f\<close> that may throw: only an array has \<^verbatim>\<open>map\<close>.\<close>

fun mapM :: "('a \<Rightarrow> js_error + 'b) \<Rightarrow> 'a list \<Rightarrow> js_error + 'b list" where
  "mapM f [] = Inr []"
| "mapM f (x # xs) =
     (case f x of
        Inl e \<Rightarrow> Inl e
      | Inr y \<Rightarrow> (case mapM f xs of Inl e \<Rightarrow> Inl e | Inr ys \<Rightarrow> Inr (y # ys)))"

fun arrayMap :: "(json \<Rightarrow> js_error + 'b) \<Rightarrow> jsval \<Rightarrow> js_error + 'b list" where
  "arrayMap f (Some (JArr xs)) = mapM f xs"
| "arrayMap f v = Inl TypeError"

text \<open>
  A plain object used as a dictionary, as \<^verbatim>\<open>packageItemLookup\<close> is: \<^verbatim>\<open>obj[key]\<close> gives
  the own property when there is one, and otherwise what the key names on
  \<^verbatim>\<open>Object.prototype\<close>, which is a function or an object and so counts as true.
\<close>

definition objectPrototypeKeys :: "string list" where
  "objectPrototypeKeys =
     [''constructor'', ''__defineGetter__'', ''__defineSetter__'', ''hasOwnProperty'',
      ''__lookupGetter__'', ''__lookupSetter__'', ''isPrototypeOf'',
      ''propertyIsEnumerable'', ''toString'', ''valueOf'', ''__proto__'',
      ''toLocaleString'']"

datatype 'a property = Own 'a | Inherited string | Undefined

definition getProperty :: "(string \<rightharpoonup> 'a) \<Rightarrow> string \<Rightarrow> 'a property" where
  "getProperty obj k =
     (case obj k of
        Some v \<Rightarrow> Own v
      | None \<Rightarrow> if k \<in> set objectPrototypeKeys then Inherited k else Undefined)"

text \<open>
  What a lookup for an item yields: an item, or a member of \<^verbatim>\<open>Object.prototype\<close> that
  the lookup object inherits.
\<close>

datatype 'v resolved = AnItem "'v ItemOf" | PrototypeMember string

section \<open>Host functions\<close>

text \<open>
  The functions of the platform and of the \<^verbatim>\<open>lz-string\<close> package that \<^verbatim>\<open>TierCortex\<close>
  calls. The repository does not define them; the model takes them as a parameter.
  \<^item> \<open>compressToEncodedURIComponent\<close>, \<open>decompressFromEncodedURIComponent\<close>: of
    \<^verbatim>\<open>LZString\<close>; the latter returns \<^verbatim>\<open>null\<close> (\<^const>\<open>None\<close>) or a string.
  \<^item> \<open>JSON_stringify\<close>, \<open>JSON_parse\<close>: \<^const>\<open>None\<close> is the \<^verbatim>\<open>SyntaxError\<close> of
    \<^verbatim>\<open>JSON.parse\<close>.
  \<^item> \<open>ToString\<close>: the conversion of a value that is not a string to a property key;
    \<^const>\<open>None\<close> is the \<^verbatim>\<open>TypeError\<close> of a value that has no primitive value, such as
    a parsed object with an own property \<^verbatim>\<open>toString\<close>, which is not callable.
  \<^item> \<open>newURL path base\<close>: \<^verbatim>\<open>new URL(path, base).toString()\<close>; \<^const>\<open>None\<close> is the
    \<^verbatim>\<open>TypeError\<close> for an invalid URL.
\<close>

record Host =
  compressToEncodedURIComponent :: "string \<Rightarrow> string"
  decompressFromEncodedURIComponent :: "string \<Rightarrow> string option"
  JSON_stringify :: "json \<Rightarrow> string"
  JSON_parse :: "string \<Rightarrow> json option"
  ToString :: "jsval \<Rightarrow> string option"
  newURL :: "string \<Rightarrow> string \<Rightarrow> string option"

text \<open>The key of \<^verbatim>\<open>obj[v]\<close>: a string is its own key, any other value is converted.\<close>

definition propertyKey :: "Host \<Rightarrow> jsval \<Rightarrow> js_error + string" where
  "propertyKey h v =
     (case v of
        Some (JStr s) \<Rightarrow> Inr s
      | _ \<Rightarrow> (case ToString h v of None \<Rightarrow> Inl TypeError | Some s \<Rightarrow> Inr s))"

section \<open>TierCortex (the class of module \<^verbatim>\<open>@/lib/TierCortex\<close>)\<close>

record SimplifiedItem =
  si_i :: string
  si_c :: string

record SimplifiedTier =
  st_i :: string
  st_n :: string
  st_t :: "SimplifiedItem list"

record StoredCustomItem =
  sc_i :: string
  sc_c :: string
  sc_d :: string

text \<open>
  \<^verbatim>\<open>imageset.config.json\<close> and its type \<^verbatim>\<open>ImageSetConfig\<close> are not among the sources; the
  code reads \<^verbatim>\<open>packages\<close>, per package \<^verbatim>\<open>images\<close>, and per image \<^verbatim>\<open>filename\<close> and the
  optional \<^verbatim>\<open>label\<close>. The configuration is the list \<^verbatim>\<open>Object.entries\<close> yields.
  \<^verbatim>\<open>ItemSet\<close> likewise has the fields the code reads.
\<close>

record ImageEntry =
  filename :: string
  label :: "string option"

type_synonym ImageSetConfig = "(string \<times> ImageEntry list) list"

record ItemSet =
  packageName :: string
  images :: "string list"

record TierCortex =
  packageItemLookup :: "string \<rightharpoonup> Item"
  customItemsMap :: "(string \<times> StoredCustomItem) list"
  isServer :: bool
  baseUrl :: string

definition CUSTOM_ITEMS_KEY :: string where
  "CUSTOM_ITEMS_KEY = ''customItems''"

text \<open>\<^verbatim>\<open>filename.split('.')[0]\<close>: the part of the file name before its first dot.\<close>

definition splitDotFirst :: "string \<Rightarrow> string" where
  "splitDotFirst s = takeWhile (\<lambda>ch. ch \<noteq> CHR ''.'') s"

text \<open>
  The object literal of \<^verbatim>\<open>initializePackageItemLookup\<close>; \<^verbatim>\<open>image.label || ...\<close> takes the
  label when it is defined and not the empty string.
\<close>

definition packageItemOf :: "string \<Rightarrow> ImageEntry \<Rightarrow> Item" where
  "packageItemOf pkg img =
     \<lparr>item_id = pkg @ ''-'' @ filename img,
      content = (case label img of
                   Some l \<Rightarrow> if l \<noteq> '''' then l else splitDotFirst (filename img)
                 | None \<Rightarrow> splitDotFirst (filename img)),
      imageUrl = Some (''/images/'' @ pkg @ ''/'' @ filename img)\<rparr>"

text \<open>The inner loop of \<^verbatim>\<open>initializePackageItemLookup\<close>, over the images of one package.\<close>

definition addPackageImages ::
  "(string \<rightharpoonup> Item) \<Rightarrow> string \<Rightarrow> ImageEntry list \<Rightarrow> (string \<rightharpoonup> Item)" where
  "addPackageImages lookup pkg imgs =
     foldl (\<lambda>lookup img. lookup(pkg @ ''-'' @ filename img \<mapsto> packageItemOf pkg img)) lookup imgs"

definition initializePackageItemLookup :: "ImageSetConfig \<Rightarrow> (string \<rightharpoonup> Item)" where
  "initializePackageItemLookup config =
     foldl (\<lambda>lookup (pkg, imgs). addPackageImages lookup pkg imgs) Map.empty config"

text \<open>
  The constructor. \<open>stored\<close> is the array \<^verbatim>\<open>loadCustomItemsFromLocalStorage\<close> returns;
  it is read on the client only. \<open>base\<close> is \<^verbatim>\<open>NEXT_PUBLIC_BASE_URL\<close> (or the empty
  string) on the server and \<^verbatim>\<open>window.location.origin\<close> on the client.
\<close>

definition initializeCustomItemsMap ::
  "StoredCustomItem list \<Rightarrow> (string \<times> StoredCustomItem) list \<Rightarrow> (string \<times> StoredCustomItem) list"
  where
  "initializeCustomItemsMap stored m =
     (if m = [] then foldl (\<lambda>m item. AList.update (sc_i item) item m) m stored else m)"

definition newTierCortex ::
  "bool \<Rightarrow> string \<Rightarrow> ImageSetConfig \<Rightarrow> StoredCustomItem list \<Rightarrow> TierCortex" where
  "newTierCortex server base config stored =
     \<lparr>packageItemLookup = initializePackageItemLookup config,
      customItemsMap = (if \<not> server then initializeCustomItemsMap stored [] else []),
      isServer = server,
      baseUrl = base\<rparr>"

definition getAbsoluteUrl :: "Host \<Rightarrow> TierCortex \<Rightarrow> string \<Rightarrow> js_error + string" where
  "getAbsoluteUrl h c path =
     (case newURL h path (baseUrl c) of None \<Rightarrow> Inl TypeError | Some u \<Rightarrow> Inr u)"

definition createPlaceholderItem ::
  "Host \<Rightarrow> TierCortex \<Rightarrow> 'v \<Rightarrow> 'v \<Rightarrow> js_error + 'v ItemOf" where
  "createPlaceholderItem h c itemId cont =
     (case getAbsoluteUrl h c ''/placeholder-image.jpg'' of
        Inl e \<Rightarrow> Inl e
      | Inr u \<Rightarrow> Inr \<lparr>item_id = itemId, content = cont, imageUrl = Some u\<rparr>)"

text \<open>A catalog item as a run-time value.\<close>

definition itemValue :: "Item \<Rightarrow> jsval ItemOf" where
  "itemValue it =
     \<lparr>item_id = Some (JStr (item_id it)), content = Some (JStr (content it)),
      imageUrl = imageUrl it\<rparr>"

text \<open>\<^verbatim>\<open>customItemsMap.get(itemId)\<close>: the keys of the map are strings.\<close>

definition customItemsGet :: "TierCortex \<Rightarrow> jsval \<Rightarrow> StoredCustomItem option" where
  "customItemsGet c itemId =
     (case itemId of Some (JStr k) \<Rightarrow> map_of (customItemsMap c) k | _ \<Rightarrow> None)"

definition resolveItem :: "Host \<Rightarrow> TierCortex \<Rightarrow> jsval \<Rightarrow> jsval \<Rightarrow> js_error + jsval resolved" where
  "resolveItem h c itemId cont =
     (case propertyKey h itemId of
        Inl e \<Rightarrow> Inl e
      | Inr key \<Rightarrow>
     (case getProperty (packageItemLookup c) key of
        Own packageItem \<Rightarrow> Inr (AnItem (itemValue packageItem))
      | Inherited k \<Rightarrow> Inr (PrototypeMember k)
      | Undefined \<Rightarrow>
          (case (if \<not> isServer c then customItemsGet c itemId else None) of
             Some customItem \<Rightarrow>
               Inr (AnItem \<lparr>item_id = Some (JStr (sc_i customItem)), content = cont,
                            imageUrl = Some (sc_d customItem)\<rparr>)
           | None \<Rightarrow>
               (case createPlaceholderItem h c itemId cont of
                  Inl e \<Rightarrow> Inl e
                | Inr it \<Rightarrow> Inr (AnItem it)))))"

definition simplifyTier :: "Tier \<Rightarrow> SimplifiedTier" where
  "simplifyTier tier =
     \<lparr>st_i = tier_id tier, st_n = name tier,
      st_t = map (\<lambda>item. \<lparr>si_i = item_id item, si_c = content item\<rparr>) (items tier)\<rparr>"

text \<open>The value \<^verbatim>\<open>JSON.stringify\<close> receives: the simplified tiers as objects.\<close>

definition simplifiedItemValue :: "SimplifiedItem \<Rightarrow> json" where
  "simplifiedItemValue x = JObj [(''i'', JStr (si_i x)), (''c'', JStr (si_c x))]"

definition simplifiedTierValue :: "SimplifiedTier \<Rightarrow> json" where
  "simplifiedTierValue x =
     JObj [(''i'', JStr (st_i x)), (''n'', JStr (st_n x)),
           (''t'', JArr (map simplifiedItemValue (st_t x)))]"

definition encodeTierStateForURL :: "Host \<Rightarrow> Tier list \<Rightarrow> string" where
  "encodeTierStateForURL h ts =
     (let simplifiedTiers = map simplifyTier ts;
          jsonString = JSON_stringify h (JArr (map simplifiedTierValue simplifiedTiers))
      in compressToEncodedURIComponent h jsonString)"

text \<open>
  The body of the \<^verbatim>\<open>try\<close> block of \<^verbatim>\<open>decodeTierStateFromURL\<close>, and the function with its
  \<^verbatim>\<open>catch\<close>, which turns every exception into \<^verbatim>\<open>null\<close> (\<^const>\<open>None\<close>).
\<close>

definition decodeItem :: "Host \<Rightarrow> TierCortex \<Rightarrow> json \<Rightarrow> js_error + jsval resolved" where
  "decodeItem h c item =
     (case readProperty item ''i'' of
        Inl e \<Rightarrow> Inl e
      | Inr i \<Rightarrow> (case readProperty item ''c'' of
                   Inl e \<Rightarrow> Inl e
                 | Inr cont \<Rightarrow> resolveItem h c i cont))"

definition decodeTier ::
  "Host \<Rightarrow> TierCortex \<Rightarrow> json \<Rightarrow> js_error + (jsval, jsval resolved) TierOf" where
  "decodeTier h c simplifiedTier =
     (case readProperty simplifiedTier ''i'' of
        Inl e \<Rightarrow> Inl e
      | Inr i \<Rightarrow>
     (case readProperty simplifiedTier ''n'' of
        Inl e \<Rightarrow> Inl e
      | Inr n \<Rightarrow>
     (case readProperty simplifiedTier ''t'' of
        Inl e \<Rightarrow> Inl e
      | Inr t \<Rightarrow>
     (case arrayMap (decodeItem h c) t of
        Inl e \<Rightarrow> Inl e
      | Inr its \<Rightarrow>
          Inr \<lparr>tier_id = i, name = n, items = its,
               labelPosition = None, placeholder = None\<rparr>))))"

definition decodeBody ::
  "Host \<Rightarrow> TierCortex \<Rightarrow> string \<Rightarrow> js_error + (jsval, jsval resolved) TierOf list" where
  "decodeBody h c encodedState =
     (case decompressFromEncodedURIComponent h encodedState of
        None \<Rightarrow> Inl TypeError
      | Some jsonString \<Rightarrow>
          if jsonString = '''' then Inl TypeError
          else (case JSON_parse h jsonString of
                  None \<Rightarrow> Inl TypeError
                | Some simplifiedTiers \<Rightarrow> arrayMap (decodeTier h c) (Some simplifiedTiers)))"

definition decodeTierStateFromURL ::
  "Host \<Rightarrow> TierCortex \<Rightarrow> string \<Rightarrow> (jsval, jsval resolved) TierOf list option" where
  "decodeTierStateFromURL h c encodedState =
     (case decodeBody h c encodedState of Inl e \<Rightarrow> None | Inr ts \<Rightarrow> Some ts)"

text \<open>
  \<^verbatim>\<open>addCustomItems\<close> with the local storage it writes. \<^verbatim>\<open>item.imageUrl ?? ''\<close> is the
  image reference or the empty string.
\<close>

definition storedItemValue :: "StoredCustomItem \<Rightarrow> json" where
  "storedItemValue x = JObj [(''i'', JStr (sc_i x)), (''c'', JStr (sc_c x)), (''d'', JStr (sc_d x))]"

definition addCustomItems ::
  "Host \<Rightarrow> Item list \<Rightarrow> TierCortex \<times> (string \<rightharpoonup> string) \<Rightarrow> TierCortex \<times> (string \<rightharpoonup> string)"
  where
  "addCustomItems h its st =
     (case st of (c, localStorage) \<Rightarrow>
        if isServer c then (c, localStorage)
        else let newItems = map (\<lambda>item. \<lparr>sc_i = item_id item, sc_c = content item,
                                         sc_d = (case imageUrl item of Some u \<Rightarrow> u | None \<Rightarrow> '''')\<rparr>)
                              its;
                 m = foldl (\<lambda>m item. AList.update (sc_i item) item m) (customItemsMap c) newItems;
                 allItems = map snd m
             in (c\<lparr>customItemsMap := m\<rparr>,
                 localStorage(CUSTOM_ITEMS_KEY \<mapsto> JSON_stringify h (JArr (map storedItemValue allItems)))))"

text \<open>
  The entries of the catalog in the order \<^verbatim>\<open>initializePackageItemLookup\<close> visits them,
  each with the name of its package, and the id the code gives to an entry.
\<close>

definition catalogEntries :: "ImageSetConfig \<Rightarrow> (string \<times> ImageEntry) list" where
  "catalogEntries config = concat (map (\<lambda>(pkg, imgs). map (Pair pkg) imgs) config)"

definition entryId :: "string \<times> ImageEntry \<Rightarrow> string" where
  "entryId e = fst e @ ''-'' @ filename (snd e)"

text \<open>
  The specification's words for the content of an entry without label: the file name
  with its extension, the part from the last dot on, stripped.
\<close>

definition stripExtension :: "string \<Rightarrow> string" where
  "stripExtension s =
     (if CHR ''.'' \<in> set s then rev (tl (dropWhile (\<lambda>ch. ch \<noteq> CHR ''.'') (rev s))) else s)"

text \<open>
  The shape a parsed value must have for the body of \<^verbatim>\<open>decodeTierStateFromURL\<close> not to
  throw while it walks the value: an array, whose elements are not \<^verbatim>\<open>null\<close> and have an
  array \<^verbatim>\<open>t\<close>, whose elements are not \<^verbatim>\<open>null\<close>.
\<close>

definition itemsAccepted :: "jsval \<Rightarrow> bool" where
  "itemsAccepted t = (case t of Some (JArr its) \<Rightarrow> list_all (\<lambda>it. it \<noteq> JNull) its | _ \<Rightarrow> False)"

definition tierAccepted :: "json \<Rightarrow> bool" where
  "tierAccepted t = (case readProperty t ''t'' of Inl e \<Rightarrow> False | Inr v \<Rightarrow> itemsAccepted v)"

definition shapeAccepted :: "json \<Rightarrow> bool" where
  "shapeAccepted j = (case j of JArr ts \<Rightarrow> list_all tierAccepted ts | _ \<Rightarrow> False)"

text \<open>
  When \<^verbatim>\<open>resolveItem\<close> throws for an item id: the id has no property key, or nothing is
  found for it (no property of the lookup object and, on the client, no custom item) and
  the placeholder's URL cannot be built.
\<close>

definition resolveThrows :: "Host \<Rightarrow> TierCortex \<Rightarrow> jsval \<Rightarrow> bool" where
  "resolveThrows h c itemId =
     (case propertyKey h itemId of
        Inl e \<Rightarrow> True
      | Inr key \<Rightarrow>
          getProperty (packageItemLookup c) key = Undefined
        \<and> (isServer c \<or> customItemsGet c itemId = None)
        \<and> newURL h ''/placeholder-image.jpg'' (baseUrl c) = None)"

text \<open>
  The item values of a parsed value of accepted shape, in the order of the traversal, and
  the value of the property \<^verbatim>\<open>i\<close> of an item value.
\<close>

definition tierItems :: "json \<Rightarrow> json list" where
  "tierItems t = (case readProperty t ''t'' of Inr (Some (JArr its)) \<Rightarrow> its | _ \<Rightarrow> [])"

definition parsedItems :: "json \<Rightarrow> json list" where
  "parsedItems j = (case j of JArr ts \<Rightarrow> concat (map tierItems ts) | _ \<Rightarrow> [])"

definition itemKey :: "json \<Rightarrow> jsval" where
  "itemKey it = (case readProperty it ''i'' of Inr v \<Rightarrow> v | Inl e \<Rightarrow> None)"

text \<open>
  The part of a decoded tier that the round trip through the URL is about: the id and
  name of the tier and, in order, the id and content of each of its items.
\<close>

definition idAndContent :: "'v resolved \<Rightarrow> ('v \<times> 'v) option" where
  "idAndContent r = (case r of AnItem it \<Rightarrow> Some (item_id it, content it) | PrototypeMember k \<Rightarrow> None)"

definition idsAndContents :: "('v, 'v resolved) TierOf \<Rightarrow> 'v \<times> 'v \<times> ('v \<times> 'v) option list" where
  "idsAndContents tier = (tier_id tier, name tier, map idAndContent (items tier))"

text \<open>
  The value \<^verbatim>\<open>encodeTierStateForURL\<close> passes to \<^verbatim>\<open>JSON.stringify\<close> for a board, and what
  the round trip needs of the host at this board: the JSON text is not empty, the
  decompression inverts the compression of this text, and parsing the text gives the value
  back.
\<close>

definition encodedValue :: "Tier list \<Rightarrow> json" where
  "encodedValue ts = JArr (map simplifiedTierValue (map simplifyTier ts))"

definition hostInverts :: "Host \<Rightarrow> Tier list \<Rightarrow> bool" where
  "hostInverts h ts =
     (let text = JSON_stringify h (encodedValue ts)
      in text \<noteq> ''''
       \<and> decompressFromEncodedURIComponent h (compressToEncodedURIComponent h text) = Some text
       \<and> JSON_parse h text = Some (encodedValue ts))"

text \<open>
  The two stores of a \<^verbatim>\<open>TierCortex\<close> hold each record under the record's own id: the
  constructor and \<^verbatim>\<open>addCustomItems\<close> only ever store a record under its id.
\<close>

definition keyedById :: "TierCortex \<Rightarrow> bool" where
  "keyedById c =
     ((\<forall>k p. packageItemLookup c k = Some p \<longrightarrow> item_id p = k)
    \<and> (\<forall>k r. map_of (customItemsMap c) k = Some r \<longrightarrow> sc_i r = k))"

text \<open>
  An item for which \<^verbatim>\<open>resolveItem\<close> has to build the placeholder: neither the catalog
  nor, on the client, the custom-item store knows its id.
\<close>

definition needsPlaceholder :: "TierCortex \<Rightarrow> Item \<Rightarrow> bool" where
  "needsPlaceholder c item =
     (packageItemLookup c (item_id item) = None
      \<and> (isServer c \<or> map_of (customItemsMap c) (item_id item) = None))"

definition namesInheritedMember :: "TierCortex \<Rightarrow> Item \<Rightarrow> bool" where
  "namesInheritedMember c item =
     (getProperty (packageItemLookup c) (item_id item) = Inherited (item_id item))"

section \<open>Template objects and getInitialTiers\<close>

text \<open>
  \<^verbatim>\<open>getInitialTiers\<close> assigns to the \<^verbatim>\<open>items\<close> property of a tier object that it reaches
  through a copy of the array \<^verbatim>\<open>DEFAULT_TIER_TEMPLATE\<close>, so the tier objects of the module
  \<^verbatim>\<open>Tier.ts\<close> live in a store: a tier array is a list of addresses, and the store maps an
  address (an index) to the tier object. The module allocates the objects of its three
  arrays in the order of the source; \<^verbatim>\<open>DEFAULT_TIER_TEMPLATE\<close> is the array of the key
  \<^verbatim>\<open>5rows\<close> itself. The items of such an object are what a lookup yields.
\<close>

type_synonym TierObject = "(string, string resolved) TierOf"

type_synonym Heap = "TierObject list"

definition tierObject :: "Tier \<Rightarrow> TierObject" where
  "tierObject t =
     \<lparr>tier_id = tier_id t, name = name t, items = map AnItem (items t),
      labelPosition = labelPosition t, placeholder = placeholder t\<rparr>"

definition moduleHeap :: Heap where
  "moduleHeap = map tierObject (concat (map snd tierTemplates))"

fun arrayRefs :: "nat \<Rightarrow> (string \<times> Tier list) list \<Rightarrow> string \<Rightarrow> nat list" where
  "arrayRefs off [] k = []"
| "arrayRefs off (p # rest) k =
     (if fst p = k then [off ..< off + length (snd p)]
      else arrayRefs (off + length (snd p)) rest k)"

definition DEFAULT_TIER_TEMPLATE :: "nat list" where
  "DEFAULT_TIER_TEMPLATE = arrayRefs 0 tierTemplates ''5rows''"

text \<open>
  The result of \<^verbatim>\<open>getInitialTiers\<close>: the freshly built tiers of the decoder, or an array
  of references to tier objects in the store.
\<close>

datatype InitialTiers =
    Decoded "(jsval, jsval resolved) TierOf list"
  | Refs "nat list"

definition initialItem :: "Host \<Rightarrow> TierCortex \<Rightarrow> string \<Rightarrow> string \<Rightarrow> js_error + string resolved" where
  "initialItem h c pkg fname =
     (let itemId = pkg @ ''-'' @ fname
      in case getProperty (packageItemLookup c) itemId of
           Own it \<Rightarrow> Inr (AnItem it)
         | Inherited k \<Rightarrow> Inr (PrototypeMember k)
         | Undefined \<Rightarrow>
             (case createPlaceholderItem h c itemId fname of
                Inl e \<Rightarrow> Inl e
              | Inr it \<Rightarrow> Inr (AnItem it)))"

definition getInitialTiers ::
  "Host \<Rightarrow> TierCortex \<Rightarrow> string option \<Rightarrow> ItemSet option \<Rightarrow> Heap
     \<Rightarrow> js_error + (InitialTiers \<times> Heap)" where
  "getInitialTiers h c initialState initialItemSet heap =
     (case (case initialState of
              Some s \<Rightarrow> if s \<noteq> '''' then decodeTierStateFromURL h c s else None
            | None \<Rightarrow> None) of
        Some decodedState \<Rightarrow> Inr (Decoded decodedState, heap)
      | None \<Rightarrow>
          (case initialItemSet of
             Some itemSet \<Rightarrow>
               (let initialTiers = DEFAULT_TIER_TEMPLATE
                in if initialTiers = [] then Inl TypeError
                   else let lastTier = last initialTiers
                        in case mapM (initialItem h c (packageName itemSet)) (images itemSet) of
                             Inl e \<Rightarrow> Inl e
                           | Inr newItems \<Rightarrow>
                               Inr (Refs initialTiers,
                                    heap[lastTier := (heap ! lastTier)\<lparr>items := newItems\<rparr>]))
           | None \<Rightarrow> Inr (Refs DEFAULT_TIER_TEMPLATE, heap)))"

text \<open>The item sequences of the tiers a result denotes, read from the store.\<close>

definition itemSequences :: "js_error + (InitialTiers \<times> Heap) \<Rightarrow> string resolved list list option"
  where
  "itemSequences r =
     (case r of
        Inr (Refs refs, heap) \<Rightarrow> Some (map (\<lambda>a. items (heap ! a)) refs)
      | _ \<Rightarrow> None)"

section \<open>A reference host\<close>

text \<open>
  A concrete host for closed examples: JSON text without white space, a compression that
  only marks its input, and URLs resolved against an origin. The theorems below hold for
  every host; the examples are evaluated on this one.
\<close>

definition quote :: char where
  "quote = CHR 0x22"

definition backslash :: char where
  "backslash = CHR 0x5C"

function decimal :: "nat \<Rightarrow> string" where
  "decimal n =
     (if n < 10 then [char_of (48 + n)] else decimal (n div 10) @ [char_of (48 + n mod 10)])"
  by pat_completeness auto
termination
  by (relation "measure (\<lambda>n. n)") auto

definition intToString :: "int \<Rightarrow> string" where
  "intToString n = (if n < 0 then CHR ''-'' # decimal (nat (- n)) else decimal (nat n))"

fun escape :: "string \<Rightarrow> string" where
  "escape [] = []"
| "escape (ch # cs) =
     (if ch = quote \<or> ch = backslash then backslash # ch # escape cs else ch # escape cs)"

definition quoted :: "string \<Rightarrow> string" where
  "quoted s = quote # escape s @ [quote]"

fun commaSep :: "string list \<Rightarrow> string" where
  "commaSep [] = []"
| "commaSep [x] = x"
| "commaSep (x # y # ys) = x @ CHR '','' # commaSep (y # ys)"

fun stringifyJson :: "json \<Rightarrow> string" where
  "stringifyJson JNull = ''null''"
| "stringifyJson (JBool b) = (if b then ''true'' else ''false'')"
| "stringifyJson (JNum n) = intToString n"
| "stringifyJson (JStr s) = quoted s"
| "stringifyJson (JArr xs) = CHR ''['' # commaSep (map stringifyJson xs) @ '']''"
| "stringifyJson (JObj kvs) =
     CHR ''{'' # commaSep (map (\<lambda>kv. quoted (fst kv) @ CHR '':'' # stringifyJson (snd kv)) kvs)
       @ ''}''"

text \<open>A string literal after its opening quote: the text and the rest of the input.\<close>

fun parseString :: "string \<Rightarrow> (string \<times> string) option" where
  "parseString [] = None"
| "parseString [ch] = (if ch = quote then Some ([], []) else None)"
| "parseString (ch # e # cs) =
     (if ch = quote then Some ([], e # cs)
      else if ch = backslash then map_option (apfst ((#) e)) (parseString cs)
      else map_option (apfst ((#) ch)) (parseString (e # cs)))"

definition isDigit :: "char \<Rightarrow> bool" where
  "isDigit ch = (CHR ''0'' \<le> ch \<and> ch \<le> CHR ''9'')"

definition digitsValue :: "string \<Rightarrow> nat" where
  "digitsValue ds = foldl (\<lambda>acc ch. 10 * acc + (of_char ch - 48)) 0 ds"

text \<open>
  Recursive descent; the first argument bounds the nesting depth and the length. Of two
  members of an object with the same name the later value counts, as in \<^verbatim>\<open>JSON.parse\<close>.
\<close>

fun parseValue :: "nat \<Rightarrow> string \<Rightarrow> (json \<times> string) option"
  and parseElements :: "nat \<Rightarrow> string \<Rightarrow> (json list \<times> string) option"
  and parseMembers :: "nat \<Rightarrow> string \<Rightarrow> ((string \<times> json) list \<times> string) option"
where
  "parseValue 0 cs = None"
| "parseValue (Suc n) cs =
     (if take 4 cs = ''null'' then Some (JNull, drop 4 cs)
      else if take 4 cs = ''true'' then Some (JBool True, drop 4 cs)
      else if take 5 cs = ''false'' then Some (JBool False, drop 5 cs)
      else if take 1 cs = [quote] then map_option (apfst JStr) (parseString (drop 1 cs))
      else if take 2 cs = ''[]'' then Some (JArr [], drop 2 cs)
      else if take 1 cs = ''['' then map_option (apfst JArr) (parseElements n (drop 1 cs))
      else if take 2 cs = ''{}'' then Some (JObj [], drop 2 cs)
      else if take 1 cs = ''{''
        then map_option
               (apfst (\<lambda>kvs. JObj (foldl (\<lambda>m kv. AList.update (fst kv) (snd kv) m) [] kvs)))
               (parseMembers n (drop 1 cs))
      else if take 1 cs = ''-'' \<and> takeWhile isDigit (drop 1 cs) \<noteq> []
        then Some (JNum (- int (digitsValue (takeWhile isDigit (drop 1 cs)))),
                   dropWhile isDigit (drop 1 cs))
      else if takeWhile isDigit cs \<noteq> []
        then Some (JNum (int (digitsValue (takeWhile isDigit cs))), dropWhile isDigit cs)
      else None)"
| "parseElements 0 cs = None"
| "parseElements (Suc n) cs =
     (case parseValue n cs of
        None \<Rightarrow> None
      | Some (v, rest) \<Rightarrow>
          if take 1 rest = '','' then map_option (apfst ((#) v)) (parseElements n (drop 1 rest))
          else if take 1 rest = '']'' then Some ([v], drop 1 rest)
          else None)"
| "parseMembers 0 cs = None"
| "parseMembers (Suc n) cs =
     (if take 1 cs = [quote]
      then (case parseString (drop 1 cs) of
              None \<Rightarrow> None
            | Some (k, rest) \<Rightarrow>
                if take 1 rest = '':''
                then (case parseValue n (drop 1 rest) of
                        None \<Rightarrow> None
                      | Some (v, rest') \<Rightarrow>
                          if take 1 rest' = '',''
                          then map_option (apfst ((#) (k, v))) (parseMembers n (drop 1 rest'))
                          else if take 1 rest' = ''}'' then Some ([(k, v)], drop 1 rest')
                          else None)
                else None)
      else None)"

definition parseJson :: "string \<Rightarrow> json option" where
  "parseJson s =
     (case parseValue (Suc (length s)) s of
        Some (v, rest) \<Rightarrow> if rest = [] then Some v else None
      | None \<Rightarrow> None)"

text \<open>
  The conversion of a parsed value to a string, as a property key needs it. An array
  joins the strings of its elements, with the empty string for \<^verbatim>\<open>null\<close>. An object
  without own property \<^verbatim>\<open>toString\<close> inherits the method of \<^verbatim>\<open>Object.prototype\<close>; an own
  property \<^verbatim>\<open>toString\<close> of a parsed object is never callable, and the inherited
  \<^verbatim>\<open>valueOf\<close> (or an own, not callable one) gives no primitive value, so the conversion
  throws.
\<close>

fun jsonToString :: "json \<Rightarrow> string option" where
  "jsonToString JNull = Some ''null''"
| "jsonToString (JBool b) = Some (if b then ''true'' else ''false'')"
| "jsonToString (JNum n) = Some (intToString n)"
| "jsonToString (JStr s) = Some s"
| "jsonToString (JArr xs) =
     map_option commaSep
       (those (map (\<lambda>x. if x = JNull then Some [] else jsonToString x) xs))"
| "jsonToString (JObj kvs) =
     (if map_of kvs ''toString'' = None then Some ''[object Object]'' else None)"

definition referenceHost :: Host where
  "referenceHost =
     \<lparr>compressToEncodedURIComponent = (\<lambda>s. CHR ''Z'' # s),
      decompressFromEncodedURIComponent =
        (\<lambda>s. case s of [] \<Rightarrow> None | ch # cs \<Rightarrow> if ch = CHR ''Z'' then Some cs else None),
      JSON_stringify = stringifyJson,
      JSON_parse = parseJson,
      ToString = (\<lambda>v. case v of None \<Rightarrow> Some ''undefined'' | Some j \<Rightarrow> jsonToString j),
      newURL = (\<lambda>path base. if take 4 base = ''http'' then Some (base @ path) else None)\<rparr>"

text \<open>
  A collation of the kind \<^verbatim>\<open>localeCompare\<close> implements: strings are compared
  alphabetically first, and letter case only separates strings that are otherwise equal
  (lower case first).
\<close>

definition toLowerCase :: "char \<Rightarrow> char" where
  "toLowerCase c =
     (if CHR ''A'' \<le> c \<and> c \<le> CHR ''Z'' then char_of (of_char c + (32::nat)) else c)"

definition collationCompare :: "string \<Rightarrow> string \<Rightarrow> int" where
  "collationCompare a b =
     (let a' = map toLowerCase a; b' = map toLowerCase b
      in if a' < b' then - 1 else if b' < a' then 1
         else if a = b then 0 else if b < a then - 1 else 1)"

text \<open>Items, tiers and component states for the closed examples.\<close>

definition mkItem :: "string \<Rightarrow> string \<Rightarrow> Item" where
  "mkItem i c = \<lparr>item_id = i, content = c, imageUrl = None\<rparr>"

definition mkTier :: "string \<Rightarrow> string \<Rightarrow> Item list \<Rightarrow> Tier" where
  "mkTier i n xs =
     \<lparr>tier_id = i, name = n, items = xs, labelPosition = Some Left, placeholder = Some n\<rparr>"

definition mkState :: "Tier list \<Rightarrow> ManagerState" where
  "mkState ts = \<lparr>tiers = ts, previousTiersRef = ts, labelPositionState = Left\<rparr>"

definition board_with_one_item :: "Tier list" where
  "board_with_one_item =
     [\<lparr>tier_id = ''tier-s'', name = ''S'',
       items = [\<lparr>item_id = ''x-1'', content = ''Foo'', imageUrl = None\<rparr>],
       labelPosition = Some Left, placeholder = Some ''S''\<rparr>]"

text \<open>A cortex and a board for the closed examples.\<close>

definition exampleCortex :: "bool \<Rightarrow> string \<Rightarrow> TierCortex" where
  "exampleCortex server base =
     newTierCortex server base
       [(''p'', [\<lparr>filename = ''a.png'', label = Some ''Alpha''\<rparr>])]
       [\<lparr>sc_i = ''custom-1'', sc_c = ''Stored'', sc_d = ''data:stored''\<rparr>]"

definition exampleBoard :: "Tier list" where
  "exampleBoard =
     [mkTier ''tier-s'' ''S'' [mkItem ''p-a.png'' ''Alpha'', mkItem ''custom-1'' ''Mine''],
      mkTier ''tier-a'' ''A'' [mkItem ''u-9'' ''Unknown'']]"

section \<open>Undo\<close>

lemma handleTiersUpdate_overwrites_checkpoint:
  "previousTiersRef (handleTiersUpdate ts s) = ts \<and> tiers (handleTiersUpdate ts s) = ts"
  by (simp add: handleTiersUpdate_def Let_def)

lemma undoDelete_after_deleteAllItems:
  "tiers (undoDelete (deleteAllItems s)) = map (\<lambda>tier. tier\<lparr>items := []\<rparr>) (tiers s)"
  by (simp add: undoDelete_def deleteAllItems_def handleTiersUpdate_def Let_def)

lemma undoReset_after_resetItems:
  "tiers (undoReset (resetItems cmp s)) = tiers (resetItems cmp s)"
  by (simp add: undoReset_def resetItems_def handleTiersUpdate_def Let_def)

lemma undoDelete_idempotent:
  "undoDelete (undoDelete s) = undoDelete s"
  by (simp add: undoDelete_def handleTiersUpdate_def Let_def)

text \<open>
  C1. The claim: \<^verbatim>\<open>deleteAllItems\<close> followed by undo gives back the board as it was before
  the delete. On the code, \<^verbatim>\<open>deleteAllItems\<close> stores the old board in
  \<^verbatim>\<open>previousTiersRef\<close> and then calls \<^verbatim>\<open>handleTiersUpdate\<close>, which stores the emptied
  board in the same reference. For the board with the single item \<^verbatim>\<open>x-1\<close> in \<^verbatim>\<open>tier-s\<close>,
  the undo therefore yields the emptied board, not the board before the delete; a second
  undo gives the same emptied board again.
\<close>

theorem C1_undo_after_delete_yields_emptied_board:
  "tiers (undoDelete (deleteAllItems
      \<lparr>tiers = board_with_one_item, previousTiersRef = board_with_one_item,
       labelPositionState = Left\<rparr>))
     = [\<lparr>tier_id = ''tier-s'', name = ''S'', items = [],
         labelPosition = Some Left, placeholder = Some ''S''\<rparr>]
   \<and> tiers (undoDelete (deleteAllItems
      \<lparr>tiers = board_with_one_item, previousTiersRef = board_with_one_item,
       labelPositionState = Left\<rparr>)) \<noteq> board_with_one_item
   \<and> tiers (undoDelete (undoDelete (deleteAllItems
      \<lparr>tiers = board_with_one_item, previousTiersRef = board_with_one_item,
       labelPositionState = Left\<rparr>)))
     = [\<lparr>tier_id = ''tier-s'', name = ''S'', items = [],
         labelPosition = Some Left, placeholder = Some ''S''\<rparr>]"
  by (simp add: undoDelete_def deleteAllItems_def handleTiersUpdate_def board_with_one_item_def Let_def)

section \<open>Reset to uncategorized\<close>

lemma mset_insertBy: "mset (insertBy cmp x xs) = add_mset x (mset xs)"
  by (induction xs) auto

lemma mset_sortBy: "mset (sortBy cmp xs) = mset xs"
  by (induction xs) (auto simp: sortBy_def mset_insertBy)

lemma set_insertBy: "set (insertBy cmp x xs) = insert x (set xs)"
  by (induction xs) auto

lemma sorted_insertBy:
  assumes total: "\<And>a b. cmp a b \<le> 0 \<or> cmp b a \<le> 0"
      and trans: "\<And>a b c. cmp a b \<le> 0 \<Longrightarrow> cmp b c \<le> 0 \<Longrightarrow> cmp a c \<le> 0"
      and srt: "sorted_wrt (\<lambda>a b. cmp a b \<le> 0) xs"
  shows "sorted_wrt (\<lambda>a b. cmp a b \<le> 0) (insertBy cmp x xs)"
  using srt
proof (induction xs)
  case Nil
  then show ?case by simp
next
  case (Cons y ys)
  show ?case
  proof (cases "cmp x y \<le> 0")
    case True
    have "\<forall>z\<in>set ys. cmp x z \<le> 0"
      using Cons.prems True trans by auto
    with True Cons.prems show ?thesis by simp
  next
    case False
    then have yx: "cmp y x \<le> 0" using total by blast
    from Cons have "sorted_wrt (\<lambda>a b. cmp a b \<le> 0) (insertBy cmp x ys)" by simp
    with False yx Cons.prems show ?thesis by (auto simp: set_insertBy)
  qed
qed

lemma sorted_sortBy:
  assumes total: "\<And>a b. cmp a b \<le> 0 \<or> cmp b a \<le> 0"
      and trans: "\<And>a b c. cmp a b \<le> 0 \<Longrightarrow> cmp b c \<le> 0 \<Longrightarrow> cmp a c \<le> 0"
  shows "sorted_wrt (\<lambda>a b. cmp a b \<le> 0) (sortBy cmp xs)"
proof (induction xs)
  case Nil
  then show ?case by (simp add: sortBy_def)
next
  case (Cons x xs)
  have "sortBy cmp (x # xs) = insertBy cmp x (sortBy cmp xs)" by (simp add: sortBy_def)
  with Cons sorted_insertBy[of cmp, OF total trans] show ?case by simp
qed

lemma three_sorted:
  assumes m: "mset xs = {#a, b, c#}"
      and s: "sorted_wrt (\<lambda>x y. r x y) xs"
      and "\<not> r b a" "\<not> r c a" "\<not> r c b"
  shows "xs = [a, b, c]"
proof -
  from m have "length xs = 3" by (metis size_mset size_add_mset size_empty numeral_3_eq_3)
  then obtain x y z where xs: "xs = [x, y, z]"
    by (metis (no_types) length_0_conv length_Suc_conv numeral_3_eq_3)
  with m s assms(3-5) show ?thesis
    by (auto simp: add_eq_conv_ex)
qed

lemma codeUnitCompare_total: "codeUnitCompare a b \<le> 0 \<or> codeUnitCompare b a \<le> 0"
  by (auto simp: codeUnitCompare_def)

lemma codeUnitCompare_trans:
  "codeUnitCompare a b \<le> 0 \<Longrightarrow> codeUnitCompare b c \<le> 0 \<Longrightarrow> codeUnitCompare a c \<le> 0"
  by (auto simp: codeUnitCompare_def split: if_splits)

text \<open>
  C4 (as stated). The claim: the sink tier receives all items sorted by \<^verbatim>\<open>content\<close> in
  case-sensitive lexicographic order. The code sorts with \<^verbatim>\<open>localeCompare\<close>; under a
  collation that compares alphabetically before it compares case, the items
  \<^verbatim>\<open>Banana\<close>, \<^verbatim>\<open>apple\<close> end up in the order \<^verbatim>\<open>apple\<close>, \<^verbatim>\<open>Banana\<close>, which is not the
  case-sensitive lexicographic order (there \<^verbatim>\<open>B\<close> comes before \<^verbatim>\<open>a\<close>).
\<close>

theorem C4_case_sensitive_order_counterexample:
  "map content (items (last (tiers (resetItems collationCompare
      (mkState [mkTier ''tier-s'' ''S'' [mkItem ''1'' ''Banana''],
                mkTier ''tier-a'' ''A'' [mkItem ''2'' ''apple'']])))))
     = [''apple'', ''Banana'']
   \<and> \<not> sorted_wrt (\<lambda>a b. codeUnitCompare a b \<le> 0) [''apple'', ''Banana'']"
  by code_simp

text \<open>
  C4 (amended). For every board and every host collation that is a total preorder,
  \<^verbatim>\<open>resetItems\<close> yields a board whose last tier has id \<^verbatim>\<open>uncategorized\<close> and holds all
  items of all tiers, sorted by \<^verbatim>\<open>content\<close> under that collation; every other tier is
  emptied; the last tier of the old board is reused as the sink when its id is
  \<^verbatim>\<open>uncategorized\<close>, and otherwise a new tier (empty name, the current label position) is
  appended. When the collation puts \<^verbatim>\<open>Apple\<close> before \<^verbatim>\<open>Banana\<close> before \<^verbatim>\<open>cherry\<close>, items
  with exactly these contents end up in that order.
\<close>

theorem C4_resetItems_sorts_by_host_collation:
  assumes total: "\<And>a b. cmp a b \<le> 0 \<or> cmp b a \<le> 0"
      and trans: "\<And>a b c. cmp a b \<le> 0 \<Longrightarrow> cmp b c \<le> 0 \<Longrightarrow> cmp a c \<le> 0"
  shows "(let ts = tiers s; r = tiers (resetItems cmp s); sink = last r in
           r \<noteq> [] \<and> tier_id sink = ''uncategorized''
         \<and> mset (items sink) = mset (concat (map items ts))
         \<and> sorted_wrt (\<lambda>a b. cmp (content a) (content b) \<le> 0) (items sink)
         \<and> list_all (\<lambda>t. items t = []) (butlast r)
         \<and> r = (if ts \<noteq> [] \<and> tier_id (last ts) = ''uncategorized''
                 then map (\<lambda>t. t\<lparr>items := []\<rparr>) (butlast ts) @ [(last ts)\<lparr>items := items sink\<rparr>]
                 else map (\<lambda>t. t\<lparr>items := []\<rparr>) ts @
                      [\<lparr>tier_id = ''uncategorized'', name = '''', items = items sink,
                        labelPosition = Some (labelPositionState s), placeholder = None\<rparr>])
         \<and> (mset (map content (concat (map items ts))) = {#''Banana'', ''Apple'', ''cherry''#}
              \<and> 0 < cmp ''Banana'' ''Apple'' \<and> 0 < cmp ''cherry'' ''Apple''
              \<and> 0 < cmp ''cherry'' ''Banana''
            \<longrightarrow> map content (items sink) = [''Apple'', ''Banana'', ''cherry'']))"
proof -
  define ts where "ts = tiers s"
  define f :: "Item \<Rightarrow> Item \<Rightarrow> int" where "f = (\<lambda>a b. cmp (content a) (content b))"
  define allItems where "allItems = sortBy f (concat (map items ts))"
  define r where "r = tiers (resetItems cmp s)"
  have r: "r = (if ts = [] \<or> tier_id (last ts) \<noteq> ''uncategorized''
               then map (\<lambda>t. t\<lparr>items := []\<rparr>) ts @
                      [\<lparr>tier_id = ''uncategorized'', name = '''', items = allItems,
                        labelPosition = Some (labelPositionState s), placeholder = None\<rparr>]
               else map (\<lambda>t. t\<lparr>items := []\<rparr>) (butlast ts) @ [(last ts)\<lparr>items := allItems\<rparr>])"
  proof (cases "ts = []")
    case True
    then show ?thesis
      by (simp add: r_def resetItems_def resetItemsTiers_def handleTiersUpdate_def Let_def
          ts_def[symmetric] allItems_def f_def uncategorizedTier_def)
  next
    case False
    then have "last (map (\<lambda>t. t\<lparr>items := []\<rparr>) ts) = (last ts)\<lparr>items := []\<rparr>"
      by (simp add: last_map)
    with False show ?thesis
      by (simp add: r_def resetItems_def resetItemsTiers_def handleTiersUpdate_def Let_def
          ts_def[symmetric] allItems_def f_def map_butlast uncategorizedTier_def)
  qed
  have sink: "items (last r) = allItems" and ne: "r \<noteq> []"
    and uid: "tier_id (last r) = ''uncategorized''"
    and bl: "list_all (\<lambda>t. items t = []) (butlast r)"
    by (auto simp: r butlast_append list_all_iff)
  have ms: "mset allItems = mset (concat (map items ts))"
    by (simp add: allItems_def mset_sortBy)
  have srt: "sorted_wrt (\<lambda>a b. f a b \<le> 0) allItems"
    unfolding allItems_def
    by (rule sorted_sortBy) (use total trans in \<open>auto simp: f_def\<close>)
  have ex: "map content allItems = [''Apple'', ''Banana'', ''cherry'']"
    if m: "mset (map content (concat (map items ts))) = {#''Banana'', ''Apple'', ''cherry''#}"
      and c: "0 < cmp ''Banana'' ''Apple''" "0 < cmp ''cherry'' ''Apple''"
             "0 < cmp ''cherry'' ''Banana''"
  proof (rule three_sorted[where r = "\<lambda>x y. cmp x y \<le> 0"])
    have "mset (map content allItems) = mset (map content (concat (map items ts)))"
      using ms by (metis mset_map)
    with m show "mset (map content allItems) = {#''Apple'', ''Banana'', ''cherry''#}"
      by (simp add: add_mset_commute)
    show "sorted_wrt (\<lambda>x y. cmp x y \<le> 0) (map content allItems)"
      using srt by (simp add: sorted_wrt_map f_def)
  qed (use c in auto)
  show ?thesis
    unfolding Let_def ts_def[symmetric] r_def[symmetric] sink
    using ne uid bl ms srt ex r by (auto simp: f_def)
qed

theorem C4_resetItems_witness:
  "tiers (resetItems codeUnitCompare
      (mkState [mkTier ''tier-s'' ''S'' [mkItem ''1'' ''Banana''],
                mkTier ''tier-a'' ''A'' [mkItem ''2'' ''Apple'', mkItem ''3'' ''cherry'']]))
   = [mkTier ''tier-s'' ''S'' [], mkTier ''tier-a'' ''A'' [],
      \<lparr>tier_id = ''uncategorized'', name = '''',
       items = [mkItem ''2'' ''Apple'', mkItem ''1'' ''Banana'', mkItem ''3'' ''cherry''],
       labelPosition = Some Left, placeholder = None\<rparr>]"
  using C4_resetItems_sorts_by_host_collation [of codeUnitCompare
      "mkState [mkTier ''tier-s'' ''S'' [mkItem ''1'' ''Banana''],
                mkTier ''tier-a'' ''A'' [mkItem ''2'' ''Apple'', mkItem ''3'' ''cherry'']]",
      OF codeUnitCompare_total codeUnitCompare_trans]
  by code_simp

section \<open>Template change\<close>


lemma pushToFirst_None: "pushToFirst p item ts = None \<longleftrightarrow> \<not> list_ex p ts"
  by (induction ts) auto

lemma pushToFirst_Some:
  "pushToFirst p item ts = Some ts' \<Longrightarrow>
     map (\<lambda>t. t\<lparr>items := []\<rparr>) ts' = map (\<lambda>t. t\<lparr>items := []\<rparr>) ts
   \<and> mset (concat (map items ts')) = add_mset item (mset (concat (map items ts)))"
  by (induction ts arbitrary: ts') (auto split: if_splits)

lemma pushToFirst_append:
  "pushToFirst p item (xs @ ys) =
     (case pushToFirst p item xs of
        Some xs' \<Rightarrow> Some (xs' @ ys)
      | None \<Rightarrow> map_option ((@) xs) (pushToFirst p item ys))"
  by (induction xs) (cases "pushToFirst p item ys"; auto split: option.splits)+

lemma clear_ids: "map (\<lambda>t. t\<lparr>items := []\<rparr>) R = map (\<lambda>t. t\<lparr>items := []\<rparr>) R' \<Longrightarrow> map tier_id R = map tier_id R'"
proof -
  assume a: "map (\<lambda>t. t\<lparr>items := []\<rparr>) R = map (\<lambda>t. t\<lparr>items := []\<rparr>) R'"
  have "map tier_id R = map tier_id (map (\<lambda>t. t\<lparr>items := []\<rparr>) R)" by (simp add: comp_def)
  also have "\<dots> = map tier_id (map (\<lambda>t. t\<lparr>items := []\<rparr>) R')" using a by simp
  also have "\<dots> = map tier_id R'" by (simp add: comp_def)
  finally show ?thesis .
qed

lemma distribute_invariant:
  assumes nu: "''uncategorized'' \<notin> set (map tier_id newTemplate)"
  shows "\<exists>R. map (\<lambda>t. t\<lparr>items := []\<rparr>) R
               = map (\<lambda>t. t\<lparr>items := [], labelPosition := Some lp\<rparr>) newTemplate
           \<and> foldl (distributeItem lp)
                (map (\<lambda>t. t\<lparr>items := [], labelPosition := Some lp\<rparr>) newTemplate) es
             = R @ (if orphansOf newTemplate es = [] then []
                    else [uncategorizedTier lp (orphansOf newTemplate es)])"
proof (induction es rule: rev_induct)
  case Nil
  show ?case by (simp add: orphansOf_def comp_def)
next
  case (snoc e es)
  let ?T0 = "map (\<lambda>t. t\<lparr>items := [], labelPosition := Some lp\<rparr>) newTemplate"
  from snoc obtain R where
    R: "map (\<lambda>t. t\<lparr>items := []\<rparr>) R = ?T0"
    and st: "foldl (distributeItem lp) ?T0 es
             = R @ (if orphansOf newTemplate es = [] then []
                    else [uncategorizedTier lp (orphansOf newTemplate es)])"
    by blast
  obtain item tid where e: "e = (item, tid)" by (cases e)
  have "map (\<lambda>t. t\<lparr>items := []\<rparr>) ?T0 = ?T0" by (simp add: comp_def)
  with R have "map (\<lambda>t. t\<lparr>items := []\<rparr>) R = map (\<lambda>t. t\<lparr>items := []\<rparr>) ?T0" by simp
  then have "map tier_id R = map tier_id ?T0" by (rule clear_ids)
  then have ids: "map tier_id R = map tier_id newTemplate" by (simp add: comp_def)
  have ex_iff: "list_ex (\<lambda>t. tier_id t = x) R \<longleftrightarrow> x \<in> set (map tier_id newTemplate)" for x
    unfolding ids[symmetric] by (auto simp: list_ex_iff)
  show ?case
  proof (cases "tid \<in> set (map tier_id newTemplate)")
    case True
    then obtain R' where R': "pushToFirst (\<lambda>t. tier_id t = tid) item R = Some R'"
      using ex_iff[of tid] pushToFirst_None[of "\<lambda>t. tier_id t = tid" item R] by auto
    from pushToFirst_Some[OF R'] R have "map (\<lambda>t. t\<lparr>items := []\<rparr>) R' = ?T0" by simp
    moreover have "orphansOf newTemplate (es @ [(item, tid)]) = orphansOf newTemplate es"
      using True by (simp add: orphansOf_def)
    moreover have "distributeItem lp (R @ S) (item, tid) = R' @ S" for S
      using R' by (simp add: distributeItem_def pushToFirst_append)
    ultimately show ?thesis
      using st by (auto simp: e)
  next
    case False
    then have n1: "pushToFirst (\<lambda>t. tier_id t = tid) item R = None"
      using ex_iff[of tid] pushToFirst_None[of "\<lambda>t. tier_id t = tid" item R] by auto
    have n2: "pushToFirst (\<lambda>t. tier_id t = ''uncategorized'') item R = None"
      using nu ex_iff[of "''uncategorized''"]
        pushToFirst_None[of "\<lambda>t. tier_id t = ''uncategorized''" item R] by auto
    have o: "orphansOf newTemplate (es @ [(item, tid)]) = orphansOf newTemplate es @ [item]"
      using False by (simp add: orphansOf_def)
    have d1: "distributeItem lp R (item, tid) = R @ [uncategorizedTier lp [item]]"
      using n1 n2 by (simp add: distributeItem_def uncategorizedTier_def)
    have d2: "distributeItem lp (R @ [uncategorizedTier lp os]) (item, tid) = R @ [uncategorizedTier lp (os @ [item])]"
      for os
      using n1 n2 by (simp add: distributeItem_def uncategorizedTier_def pushToFirst_append)
    show ?thesis
      using st R d1 d2 by (auto simp: e o)
  qed
qed



lemma distributeItem_mset:
  "mset (concat (map items (distributeItem lp ts (item, tid))))
     = add_mset item (mset (concat (map items ts)))"
  by (auto simp: distributeItem_def uncategorizedTier_def split: option.splits
      dest: pushToFirst_Some)

lemma foldl_distributeItem_mset:
  "mset (concat (map items (foldl (distributeItem lp) ts es)))
     = mset (concat (map items ts)) + mset (map fst es)"
proof (induction es arbitrary: ts)
  case Nil
  show ?case by simp
next
  case (Cons e es)
  obtain item tid where e: "e = (item, tid)" by (cases e)
  show ?case by (simp add: Cons.IH e distributeItem_mset)
qed

lemma set_update_cases:
  "x \<in> set (AList.update k v al) \<Longrightarrow> x = (k, v) \<or> x \<in> set al"
  by (induction al) (auto split: if_splits)

lemma foldl_update_invariant:
  assumes "distinct (map fst m)" and "\<forall>x\<in>set m. P x" and "\<forall>x\<in>set es. P x"
  shows "distinct (map fst (foldl (\<lambda>m (k, v). AList.update k v m) m es))
       \<and> (\<forall>x\<in>set (foldl (\<lambda>m (k, v). AList.update k v m) m es). P x)"
  using assms
proof (induction es arbitrary: m)
  case Nil
  then show ?case by simp
next
  case (Cons e es)
  obtain k v where e: "e = (k, v)" by (cases e)
  have d: "distinct (map fst (AList.update k v m))"
    using Cons.prems(1) by (rule distinct_update)
  have p: "\<forall>x\<in>set (AList.update k v m). P x"
    using Cons.prems(2,3) e by (auto dest: set_update_cases)
  from Cons.IH[OF d p] Cons.prems(3) show ?case by (simp add: e)
qed

lemma allItemsMap_keys:
  "distinct (map fst (allItemsMap ts))
   \<and> (\<forall>x\<in>set (allItemsMap ts). item_id (fst (snd x)) = fst x)"
  unfolding allItemsMap_def
  by (rule foldl_update_invariant) auto

lemma templateChangeTiers_distinct:
  "distinct (map item_id (concat (map items (templateChangeTiers lp ts newTemplate))))"
proof -
  let ?M = "allItemsMap ts"
  let ?T0 = "map (\<lambda>t. t\<lparr>items := [], labelPosition := Some lp\<rparr>) newTemplate"
  have "concat (map items ?T0) = []" by (induction newTemplate) auto
  then have "mset (concat (map items (templateChangeTiers lp ts newTemplate)))
        = mset (map fst (map snd ?M))"
    by (simp add: templateChangeTiers_def Let_def foldl_distributeItem_mset)
  then have "mset (map item_id (concat (map items (templateChangeTiers lp ts newTemplate))))
        = mset (map item_id (map fst (map snd ?M)))"
    by (metis mset_map)
  also have "map item_id (map fst (map snd ?M)) = map fst ?M"
    using allItemsMap_keys[of ts] by (auto simp: comp_def)
  finally have "mset (map item_id (concat (map items (templateChangeTiers lp ts newTemplate))))
        = mset (map fst ?M)" .
  then show ?thesis
    using allItemsMap_keys[of ts] by (metis mset_eq_imp_distinct_iff)
qed

lemma on_board_iff:
  "list_ex (\<lambda>tier. list_ex (\<lambda>item. item_id item = i \<or> content item = c) (items tier)) ts
   \<longleftrightarrow> i \<in> set (map item_id (concat (map items ts)))
        \<or> c \<in> set (map content (concat (map items ts)))"
  by (induction ts) (auto simp: list_ex_iff)


text \<open>
  C5. When the new template defines no tier with id \<^verbatim>\<open>uncategorized\<close>: if the origin
  map holds at least one item whose origin tier id is not in the template, the result is
  the template's tiers (in order, with the given label position), followed by exactly one
  new tier with id \<^verbatim>\<open>uncategorized\<close> that holds all such orphaned items, in the
  iteration order of the origin map; it is the only tier with that id. With no orphaned
  item no tier is added.
\<close>

theorem C5_orphans_go_to_one_new_uncategorized_tier:
  assumes nu: "''uncategorized'' \<notin> set (map tier_id newTemplate)"
  shows "(let orphans = orphansOf newTemplate (map snd (allItemsMap (tiers s)));
              result = tiers (handleTemplateChange newTemplate s);
              lp = labelPositionState s
          in if orphans = []
             then map (\<lambda>t. t\<lparr>items := []\<rparr>) result
                    = map (\<lambda>t. t\<lparr>items := [], labelPosition := Some lp\<rparr>) newTemplate
             else result \<noteq> []
                \<and> map (\<lambda>t. t\<lparr>items := []\<rparr>) (butlast result)
                    = map (\<lambda>t. t\<lparr>items := [], labelPosition := Some lp\<rparr>) newTemplate
                \<and> last result = uncategorizedTier lp orphans
                \<and> length (filter (\<lambda>t. tier_id t = ''uncategorized'') result) = 1)"
proof -
  define lp where "lp = labelPositionState s"
  define es where "es = map snd (allItemsMap (tiers s))"
  let ?T0 = "map (\<lambda>t. t\<lparr>items := [], labelPosition := Some lp\<rparr>) newTemplate"
  have res: "tiers (handleTemplateChange newTemplate s) = foldl (distributeItem lp) ?T0 es"
    by (simp add: handleTemplateChange_def handleTiersUpdate_def templateChangeTiers_def
        Let_def lp_def es_def)
  from distribute_invariant[OF nu, of lp es] obtain R where
    R: "map (\<lambda>t. t\<lparr>items := []\<rparr>) R = ?T0"
    and st: "foldl (distributeItem lp) ?T0 es
             = R @ (if orphansOf newTemplate es = [] then []
                    else [uncategorizedTier lp (orphansOf newTemplate es)])"
    by blast
  have "map (\<lambda>t. t\<lparr>items := []\<rparr>) ?T0 = ?T0" by (simp add: comp_def)
  with R have "map (\<lambda>t. t\<lparr>items := []\<rparr>) R = map (\<lambda>t. t\<lparr>items := []\<rparr>) ?T0" by simp
  then have "map tier_id R = map tier_id ?T0" by (rule clear_ids)
  then have ids: "map tier_id R = map tier_id newTemplate" by (simp add: comp_def)
  have "filter (\<lambda>t. tier_id t = ''uncategorized'') R = []"
    using nu unfolding ids[symmetric] by (force simp: filter_empty_conv)
  then have cnt: "length (filter (\<lambda>t. tier_id t = ''uncategorized'')
                     (R @ [uncategorizedTier lp os])) = 1" for os
    by (simp add: uncategorizedTier_def)
  show ?thesis
    unfolding Let_def lp_def[symmetric] es_def[symmetric] res st
    using R cnt by (simp add: butlast_append)
qed

theorem C5_orphans_witness:
  "tiers (handleTemplateChange (template ''3rows'')
      (mkState [mkTier ''tier-x'' ''X'' [mkItem ''a'' ''a'', mkItem ''b'' ''b''],
                mkTier ''tier-a'' ''A'' [mkItem ''c'' ''c'']]))
   = [mkTier ''tier-s'' ''S'' [], mkTier ''tier-a'' ''A'' [mkItem ''c'' ''c''],
      mkTier ''tier-b'' ''B'' [],
      uncategorizedTier Left [mkItem ''a'' ''a'', mkItem ''b'' ''b'']]"
  using C5_orphans_go_to_one_new_uncategorized_tier [of "template ''3rows''"
      "mkState [mkTier ''tier-x'' ''X'' [mkItem ''a'' ''a'', mkItem ''b'' ''b''],
                mkTier ''tier-a'' ''A'' [mkItem ''c'' ''c'']]"]
  by code_simp

section \<open>Uniqueness of item ids\<close>

lemma map_of_foldl_update:
  "map_of (foldl (\<lambda>m (k, v). AList.update k v m) m es) = map_of (rev es @ m)"
proof (induction es rule: rev_induct)
  case Nil
  show ?case by simp
next
  case (snoc e es)
  obtain k v where e: "e = (k, v)" by (cases e)
  show ?case by (simp add: e update_conv' snoc.IH)
qed

lemma allItemsMap_lastOccurrence: "map_of (allItemsMap ts) = lastOccurrence ts"
  by (rule ext) (simp add: allItemsMap_def lastOccurrence_def boardEntries_def map_of_foldl_update)

lemma allItemsMap_entry:
  assumes "(k, v) \<in> set (allItemsMap ts)"
  shows "lastOccurrence ts k = Some v \<and> item_id (fst v) = k"
proof -
  from allItemsMap_keys[of ts] have d: "distinct (map fst (allItemsMap ts))"
    and key: "\<forall>x\<in>set (allItemsMap ts). item_id (fst (snd x)) = fst x" by blast+
  from d assms have "map_of (allItemsMap ts) k = Some v" by (rule map_of_is_SomeI)
  moreover from key assms have "item_id (fst v) = k" by force
  ultimately show ?thesis by (simp add: allItemsMap_lastOccurrence)
qed

lemma allItemsMap_ids:
  "set (map fst (allItemsMap ts)) = set (map item_id (concat (map items ts)))"
proof -
  have "set (map fst (allItemsMap ts)) = dom (map_of (allItemsMap ts))"
    by (simp add: dom_map_of_conv_image_fst)
  also have "\<dots> = dom (map_of (rev (boardEntries ts)))"
    by (simp add: allItemsMap_lastOccurrence lastOccurrence_def[abs_def])
  also have "\<dots> = fst ` set (boardEntries ts)"
    by (simp add: dom_map_of_conv_image_fst)
  also have "\<dots> = set (map item_id (concat (map items ts)))"
    by (force simp: boardEntries_def)
  finally show ?thesis .
qed

lemma pushToFirst_split:
  "pushToFirst p item ts = Some ts' \<Longrightarrow>
     \<exists>xs t ys. ts = xs @ t # ys \<and> p t \<and> ts' = xs @ t\<lparr>items := items t @ [item]\<rparr> # ys"
proof (induction ts arbitrary: ts')
  case Nil
  then show ?case by simp
next
  case (Cons a ts)
  show ?case
  proof (cases "p a")
    case True
    with Cons.prems have "ts' = a\<lparr>items := items a @ [item]\<rparr> # ts" by simp
    with True show ?thesis by (intro exI[of _ "[]"] exI[of _ a] exI[of _ ts]) simp
  next
    case False
    with Cons.prems obtain r where r: "pushToFirst p item ts = Some r" and ts': "ts' = a # r"
      by auto
    from Cons.IH[OF r] obtain xs t ys where
      "ts = xs @ t # ys" "p t" "r = xs @ t\<lparr>items := items t @ [item]\<rparr> # ys" by blast
    then show ?thesis
      by (intro exI[of _ "a # xs"] exI[of _ t] exI[of _ ys]) (simp add: ts')
  qed
qed

lemma placed_step:
  assumes P: "placed newTemplate es state"
  shows "placed newTemplate (es @ [(item, tid)]) (distributeItem lp state (item, tid))"
proof -
  from P have sub1: "set (map tier_id newTemplate) \<subseteq> set (map tier_id state)"
    and sub2: "set (map tier_id state) \<subseteq> insert ''uncategorized'' (set (map tier_id newTemplate))"
    and its: "\<forall>t\<in>set state. \<forall>it\<in>set (items t).
          \<exists>tid. (it, tid) \<in> set es \<and> tier_id t = destinationId newTemplate tid"
    unfolding placed_def by blast+
  have push: "placed newTemplate (es @ [(item, tid)]) ts'"
    if ps: "pushToFirst (\<lambda>t. tier_id t = k) item state = Some ts'"
      and dk: "k = destinationId newTemplate tid" for k ts'
  proof -
    from pushToFirst_split[OF ps] obtain xs t ys where
      st: "state = xs @ t # ys" and kt: "tier_id t = k"
      and ts': "ts' = xs @ t\<lparr>items := items t @ [item]\<rparr> # ys" by blast
    have ids: "map tier_id ts' = map tier_id state" by (simp add: st ts')
    have "\<exists>tid'. (it, tid') \<in> set (es @ [(item, tid)]) \<and> tier_id u = destinationId newTemplate tid'"
      if u: "u \<in> set ts'" and it: "it \<in> set (items u)" for u it
    proof (cases "u = t\<lparr>items := items t @ [item]\<rparr>")
      case True
      show ?thesis
      proof (cases "it = item")
        case True
        with \<open>u = t\<lparr>items := items t @ [item]\<rparr>\<close> kt dk show ?thesis by auto
      next
        case False
        with True it have "it \<in> set (items t)" by simp
        moreover have "t \<in> set state" by (simp add: st)
        ultimately obtain tid' where "(it, tid') \<in> set es" "tier_id t = destinationId newTemplate tid'"
          using its by blast
        with True show ?thesis by auto
      qed
    next
      case False
      with u have "u \<in> set state" by (auto simp: st ts')
      with its it obtain tid' where "(it, tid') \<in> set es" "tier_id u = destinationId newTemplate tid'"
        by blast
      then show ?thesis by auto
    qed
    with sub1 sub2 show ?thesis unfolding placed_def ids by blast
  qed
  show ?thesis
  proof (cases "pushToFirst (\<lambda>t. tier_id t = tid) item state")
    case (Some ts')
    then have "list_ex (\<lambda>t. tier_id t = tid) state"
      using pushToFirst_None[of "\<lambda>t. tier_id t = tid" item state] by auto
    then have "tid \<in> set (map tier_id state)" by (auto simp: list_ex_iff)
    with sub2 have "tid = destinationId newTemplate tid"
      by (auto simp: destinationId_def)
    from push[OF Some this] Some show ?thesis by (simp add: distributeItem_def)
  next
    case None
    then have "\<not> list_ex (\<lambda>t. tier_id t = tid) state"
      using pushToFirst_None[of "\<lambda>t. tier_id t = tid" item state] by auto
    then have "tid \<notin> set (map tier_id state)" by (auto simp: list_ex_iff)
    with sub1 have dk: "''uncategorized'' = destinationId newTemplate tid"
      by (auto simp: destinationId_def)
    show ?thesis
    proof (cases "pushToFirst (\<lambda>t. tier_id t = ''uncategorized'') item state")
      case (Some ts')
      from push[OF Some dk] None Some show ?thesis by (simp add: distributeItem_def)
    next
      case None2: None
      have d: "distributeItem lp state (item, tid) = state @ [uncategorizedTier lp [item]]"
        using None None2 by (simp add: distributeItem_def)
      have "\<exists>tid'. (it, tid') \<in> set (es @ [(item, tid)]) \<and> tier_id u = destinationId newTemplate tid'"
        if u: "u \<in> set (state @ [uncategorizedTier lp [item]])" and it: "it \<in> set (items u)" for u it
      proof (cases "u \<in> set state")
        case True
        with its it obtain tid' where "(it, tid') \<in> set es" "tier_id u = destinationId newTemplate tid'"
          by blast
        then show ?thesis by auto
      next
        case False
        with u have "u = uncategorizedTier lp [item]" by simp
        with it dk show ?thesis by (auto simp: uncategorizedTier_def)
      qed
      moreover have "set (map tier_id (state @ [uncategorizedTier lp [item]]))
                     = insert ''uncategorized'' (set (map tier_id state))"
        by (simp add: uncategorizedTier_def)
      ultimately show ?thesis using sub1 sub2 unfolding placed_def d by blast
    qed
  qed
qed

lemma placed_foldl:
  "placed newTemplate [] state \<Longrightarrow> placed newTemplate es (foldl (distributeItem lp) state es)"
proof (induction es rule: rev_induct)
  case Nil
  then show ?case by simp
next
  case (snoc e es)
  obtain item tid where e: "e = (item, tid)" by (cases e)
  from snoc have "placed newTemplate es (foldl (distributeItem lp) state es)" by simp
  from placed_step[OF this, of item tid lp] show ?case by (simp add: e)
qed

lemma templateChangeTiers_placed:
  "placed newTemplate (map snd (allItemsMap ts)) (templateChangeTiers lp ts newTemplate)"
proof -
  let ?T0 = "map (\<lambda>t. t\<lparr>items := [], labelPosition := Some lp\<rparr>) newTemplate"
  have "map tier_id ?T0 = map tier_id newTemplate" by (simp add: comp_def)
  then have "placed newTemplate [] ?T0" unfolding placed_def by auto
  from placed_foldl[OF this] show ?thesis by (simp add: templateChangeTiers_def Let_def)
qed

lemma templateChangeTiers_items:
  "mset (concat (map items (templateChangeTiers lp ts newTemplate)))
     = mset (map (fst \<circ> snd) (allItemsMap ts))"
proof -
  let ?T0 = "map (\<lambda>t. t\<lparr>items := [], labelPosition := Some lp\<rparr>) newTemplate"
  have "concat (map items ?T0) = []" by (induction newTemplate) auto
  then show ?thesis
    by (simp add: templateChangeTiers_def Let_def foldl_distributeItem_mset)
qed

lemma templateChangeTiers_last_occurrence:
  assumes t: "t \<in> set (templateChangeTiers lp ts newTemplate)" and it: "it \<in> set (items t)"
  shows "\<exists>tid. lastOccurrence ts (item_id it) = Some (it, tid)
              \<and> tier_id t = destinationId newTemplate tid"
proof -
  from templateChangeTiers_placed[of newTemplate ts lp] t it obtain tid where
    e: "(it, tid) \<in> set (map snd (allItemsMap ts))" and d: "tier_id t = destinationId newTemplate tid"
    unfolding placed_def by blast
  from e obtain k where "(k, (it, tid)) \<in> set (allItemsMap ts)" by force
  from allItemsMap_entry[OF this] d show ?thesis by auto
qed

lemma templateChangeTiers_ids:
  "set (map item_id (concat (map items (templateChangeTiers lp ts newTemplate))))
     = set (map item_id (concat (map items ts)))"
proof -
  have "mset (map item_id (concat (map items (templateChangeTiers lp ts newTemplate))))
        = mset (map item_id (map (fst \<circ> snd) (allItemsMap ts)))"
    using templateChangeTiers_items[of lp ts newTemplate] by (metis mset_map)
  also have "map item_id (map (fst \<circ> snd) (allItemsMap ts)) = map fst (allItemsMap ts)"
    using allItemsMap_keys[of ts] by (auto simp: comp_def)
  finally have "set (map item_id (concat (map items (templateChangeTiers lp ts newTemplate))))
        = set (map fst (allItemsMap ts))" by (metis set_mset_mset)
  then show ?thesis by (simp only: allItemsMap_ids)
qed

lemma handleItemsCreate_appends_unique:
  "distinct (map item_id (concat (map items (tiers (handleTemplateChange newTemplate s)))))
   \<and> (case handleItemsCreate newItems s of
        Inl e \<Rightarrow> tiers s = []
      | Inr s' \<Rightarrow>
          (let old = concat (map items (tiers s));
               added = filter (\<lambda>newItem. item_id newItem \<notin> set (map item_id old)
                                         \<and> content newItem \<notin> set (map content old)) newItems
           in tiers s \<noteq> []
            \<and> map (\<lambda>t. t\<lparr>items := []\<rparr>) (tiers s') = map (\<lambda>t. t\<lparr>items := []\<rparr>) (tiers s)
            \<and> map items (butlast (tiers s')) = map items (butlast (tiers s))
            \<and> items (last (tiers s')) = items (last (tiers s)) @ added
            \<and> set (map item_id added) \<inter> set (map item_id old) = {}
            \<and> (distinct (map item_id old) \<and> distinct (map item_id added)
                 \<longrightarrow> distinct (map item_id (concat (map items (tiers s')))))))"
proof -
  have A: "distinct (map item_id (concat (map items (tiers (handleTemplateChange newTemplate s)))))"
    by (simp add: handleTemplateChange_def handleTiersUpdate_def Let_def
        templateChangeTiers_distinct)
  define old where "old = concat (map items (tiers s))"
  define added where "added = filter (\<lambda>newItem. item_id newItem \<notin> set (map item_id old)
                                         \<and> content newItem \<notin> set (map content old)) newItems"
  have flt: "filter (\<lambda>newItem.
             \<not> list_ex (\<lambda>tier.
                 list_ex (\<lambda>item. item_id item = item_id newItem \<or> content item = content newItem)
                   (items tier)) (tiers s)) newItems = added"
    unfolding added_def old_def
    by (rule filter_cong[OF refl]) (simp add: on_board_iff)
  have disj: "set (map item_id added) \<inter> set (map item_id old) = {}"
    by (auto simp: added_def)
  show ?thesis
  proof (cases "tiers s = []")
    case True
    then show ?thesis using A by (simp add: handleItemsCreate_def Let_def)
  next
    case False
    define s' where "s' = handleTiersUpdate
        (butlast (tiers s) @ [(last (tiers s))\<lparr>items := items (last (tiers s)) @ added\<rparr>]) s"
    have r: "handleItemsCreate newItems s = Inr s'"
      using False by (simp add: handleItemsCreate_def Let_def flt s'_def)
    have ts': "tiers s' = butlast (tiers s) @ [(last (tiers s))\<lparr>items := items (last (tiers s)) @ added\<rparr>]"
      by (simp add: s'_def handleTiersUpdate_def Let_def)
    from False obtain bl l where bl: "tiers s = bl @ [l]" by (metis rev_exhaust)
    have ts'': "tiers s' = bl @ [l\<lparr>items := items l @ added\<rparr>]"
      by (simp add: ts' bl)
    have c1: "map (\<lambda>t. t\<lparr>items := []\<rparr>) (tiers s') = map (\<lambda>t. t\<lparr>items := []\<rparr>) (tiers s)"
      by (simp add: ts'' bl)
    have cc: "concat (map items (tiers s')) = old @ added"
      by (simp add: old_def ts'' bl)
    have d: "distinct (map item_id (concat (map items (tiers s'))))"
      if "distinct (map item_id old)" "distinct (map item_id added)"
      using that disj by (auto simp: cc)
    have body: "tiers s \<noteq> []
            \<and> map (\<lambda>t. t\<lparr>items := []\<rparr>) (tiers s') = map (\<lambda>t. t\<lparr>items := []\<rparr>) (tiers s)
            \<and> map items (butlast (tiers s')) = map items (butlast (tiers s))
            \<and> items (last (tiers s')) = items (last (tiers s)) @ added
            \<and> set (map item_id added) \<inter> set (map item_id old) = {}
            \<and> (distinct (map item_id old) \<and> distinct (map item_id added)
                 \<longrightarrow> distinct (map item_id (concat (map items (tiers s')))))"
    proof (intro conjI impI)
      show "map items (butlast (tiers s')) = map items (butlast (tiers s))"
        by (simp add: ts'' bl)
      show "items (last (tiers s')) = items (last (tiers s)) @ added"
        by (simp add: ts'' bl)
      show "distinct (map item_id (concat (map items (tiers s'))))"
        if "distinct (map item_id old) \<and> distinct (map item_id added)"
        using that d by blast
    qed (use False c1 disj in blast)+
    have "case handleItemsCreate newItems s of
        Inl e \<Rightarrow> tiers s = []
      | Inr s' \<Rightarrow> tiers s \<noteq> []
            \<and> map (\<lambda>t. t\<lparr>items := []\<rparr>) (tiers s') = map (\<lambda>t. t\<lparr>items := []\<rparr>) (tiers s)
            \<and> map items (butlast (tiers s')) = map items (butlast (tiers s))
            \<and> items (last (tiers s')) = items (last (tiers s)) @ added
            \<and> set (map item_id added) \<inter> set (map item_id old) = {}
            \<and> (distinct (map item_id old) \<and> distinct (map item_id added)
                 \<longrightarrow> distinct (map item_id (concat (map items (tiers s')))))"
      unfolding r using body by simp
    with A show ?thesis
      unfolding Let_def old_def added_def by blast
  qed
qed

text \<open>
  C6 (as stated). The claim: uniqueness of item ids is an invariant of the board.
  \<^verbatim>\<open>handleItemsCreate\<close> compares each new item with the items on the board only, not
  with the other new items: adding two new items with the same id to a board whose ids
  are unique puts both on the board.
\<close>

theorem C6_add_duplicate_batch_counterexample:
  "distinct (map item_id (concat (map items (tiers (mkState [mkTier ''tier-s'' ''S'' []])))))
   \<and> map_sum (\<lambda>e. e) (\<lambda>s'. map item_id (concat (map items (tiers s'))))
       (handleItemsCreate [mkItem ''n-1'' ''Foo'', mkItem ''n-1'' ''Bar'']
          (mkState [mkTier ''tier-s'' ''S'' []]))
     = Inr [''n-1'', ''n-1'']
   \<and> \<not> distinct [''n-1'', ''n-1'']"
  by code_simp

text \<open>
  C6 (amended). For every input board, also one with duplicate ids, the board that
  \<^verbatim>\<open>handleTemplateChange\<close> produces holds each item id at most once over all tiers, and
  it holds exactly the item ids of the input board; the item it holds for an id is the
  one of the id's last occurrence on the input board, and it lies in the tier whose id is
  the tier id of that occurrence when the new template has a tier of that id, and in a
  tier of id \<^verbatim>\<open>uncategorized\<close> otherwise. \<^verbatim>\<open>handleItemsCreate\<close> throws on an empty board;
  otherwise it leaves every tier but the last as it is and appends to the last tier
  exactly the new items whose id and content both occur nowhere on the board before the
  call, so no added item has an id that was on the board; the ids stay unique when they
  were unique before and the added items have distinct ids.
\<close>

theorem C6_reconciliation_distinct_and_add_filters:
  "distinct (map item_id (concat (map items (tiers (handleTemplateChange newTemplate r)))))
   \<and> set (map item_id (concat (map items (tiers (handleTemplateChange newTemplate r)))))
     = set (map item_id (concat (map items (tiers r))))
   \<and> list_all (\<lambda>t. list_all (\<lambda>it.
          case lastOccurrence (tiers r) (item_id it) of
            None \<Rightarrow> False
          | Some e \<Rightarrow> fst e = it \<and> tier_id t = destinationId newTemplate (snd e)) (items t))
        (tiers (handleTemplateChange newTemplate r))
   \<and> (case handleItemsCreate newItems s of
        Inl e \<Rightarrow> tiers s = []
      | Inr s' \<Rightarrow>
          (let old = concat (map items (tiers s));
               added = filter (\<lambda>newItem. item_id newItem \<notin> set (map item_id old)
                                         \<and> content newItem \<notin> set (map content old)) newItems
           in tiers s \<noteq> []
            \<and> map (\<lambda>t. t\<lparr>items := []\<rparr>) (tiers s') = map (\<lambda>t. t\<lparr>items := []\<rparr>) (tiers s)
            \<and> map items (butlast (tiers s')) = map items (butlast (tiers s))
            \<and> items (last (tiers s')) = items (last (tiers s)) @ added
            \<and> set (map item_id added) \<inter> set (map item_id old) = {}
            \<and> (distinct (map item_id old) \<and> distinct (map item_id added)
                 \<longrightarrow> distinct (map item_id (concat (map items (tiers s')))))))"
proof -
  have res: "tiers (handleTemplateChange newTemplate r)
             = templateChangeTiers (labelPositionState r) (tiers r) newTemplate"
    by (simp add: handleTemplateChange_def handleTiersUpdate_def Let_def)
  have a: "distinct (map item_id (concat (map items (tiers (handleTemplateChange newTemplate r)))))"
    unfolding res by (rule templateChangeTiers_distinct)
  have b: "set (map item_id (concat (map items (tiers (handleTemplateChange newTemplate r)))))
     = set (map item_id (concat (map items (tiers r))))"
    unfolding res by (rule templateChangeTiers_ids)
  have c: "list_all (\<lambda>t. list_all (\<lambda>it.
          case lastOccurrence (tiers r) (item_id it) of
            None \<Rightarrow> False
          | Some e \<Rightarrow> fst e = it \<and> tier_id t = destinationId newTemplate (snd e)) (items t))
        (tiers (handleTemplateChange newTemplate r))"
    unfolding res list_all_iff
  proof (intro ballI)
    fix t it
    assume "t \<in> set (templateChangeTiers (labelPositionState r) (tiers r) newTemplate)"
      and "it \<in> set (items t)"
    from templateChangeTiers_last_occurrence[OF this] obtain tid where
      "lastOccurrence (tiers r) (item_id it) = Some (it, tid)"
      "tier_id t = destinationId newTemplate tid" by blast
    then show "case lastOccurrence (tiers r) (item_id it) of
            None \<Rightarrow> False
          | Some e \<Rightarrow> fst e = it \<and> tier_id t = destinationId newTemplate (snd e)"
      by simp
  qed
  from handleItemsCreate_appends_unique[of newTemplate s newItems]
  have d: "(case handleItemsCreate newItems s of
        Inl e \<Rightarrow> tiers s = []
      | Inr s' \<Rightarrow>
          (let old = concat (map items (tiers s));
               added = filter (\<lambda>newItem. item_id newItem \<notin> set (map item_id old)
                                         \<and> content newItem \<notin> set (map content old)) newItems
           in tiers s \<noteq> []
            \<and> map (\<lambda>t. t\<lparr>items := []\<rparr>) (tiers s') = map (\<lambda>t. t\<lparr>items := []\<rparr>) (tiers s)
            \<and> map items (butlast (tiers s')) = map items (butlast (tiers s))
            \<and> items (last (tiers s')) = items (last (tiers s)) @ added
            \<and> set (map item_id added) \<inter> set (map item_id old) = {}
            \<and> (distinct (map item_id old) \<and> distinct (map item_id added)
                 \<longrightarrow> distinct (map item_id (concat (map items (tiers s')))))))"
    by (rule conjunct2)
  from a b c d show ?thesis by (intro conjI)
qed

theorem C6_reconciliation_distinct_witness:
  "tiers (handleTemplateChange (template ''3rows'')
      (mkState [mkTier ''tier-x'' ''X'' [mkItem ''x-1'' ''Old'', mkItem ''z-3'' ''Qux''],
                mkTier ''tier-s'' ''S'' [mkItem ''x-1'' ''New'', mkItem ''y-2'' ''Bar'']]))
     = [mkTier ''tier-s'' ''S'' [mkItem ''x-1'' ''New'', mkItem ''y-2'' ''Bar''],
        mkTier ''tier-a'' ''A'' [], mkTier ''tier-b'' ''B'' [],
        uncategorizedTier Left [mkItem ''z-3'' ''Qux'']]
   \<and> map_sum (\<lambda>e. e) tiers
       (handleItemsCreate [mkItem ''x-1'' ''Baz'', mkItem ''w-9'' ''Foo'', mkItem ''z-3'' ''Qux'']
          (mkState [mkTier ''tier-s'' ''S'' [mkItem ''x-1'' ''Foo''],
                    mkTier ''tier-x'' ''X'' [mkItem ''y-2'' ''Bar'']]))
     = Inr [mkTier ''tier-s'' ''S'' [mkItem ''x-1'' ''Foo''],
            mkTier ''tier-x'' ''X'' [mkItem ''y-2'' ''Bar'', mkItem ''z-3'' ''Qux'']]
   \<and> distinct (map item_id [mkItem ''x-1'' ''Foo'', mkItem ''y-2'' ''Bar''])
   \<and> distinct (map item_id [mkItem ''z-3'' ''Qux''])
   \<and> distinct (map item_id [mkItem ''x-1'' ''Foo'', mkItem ''y-2'' ''Bar'', mkItem ''z-3'' ''Qux''])"
  using C6_reconciliation_distinct_and_add_filters [where newTemplate = "template ''3rows''"
      and r = "mkState [mkTier ''tier-x'' ''X'' [mkItem ''x-1'' ''Old'', mkItem ''z-3'' ''Qux''],
                mkTier ''tier-s'' ''S'' [mkItem ''x-1'' ''New'', mkItem ''y-2'' ''Bar'']]"
      and newItems = "[mkItem ''x-1'' ''Baz'', mkItem ''w-9'' ''Foo'', mkItem ''z-3'' ''Qux'']"
      and s = "mkState [mkTier ''tier-s'' ''S'' [mkItem ''x-1'' ''Foo''],
                    mkTier ''tier-x'' ''X'' [mkItem ''y-2'' ''Bar'']]"]
  by code_simp

section \<open>Catalog lookup\<close>

lemma foldl_update_lookup:
  "foldl (\<lambda>m e. m(key e \<mapsto> val e)) m (xs @ e # ys) (key e) = Some (val e)"
  if "key e \<notin> set (map key ys)"
  using that
proof (induction ys rule: rev_induct)
  case Nil
  show ?case by simp
next
  case (snoc y ys)
  then show ?case by (simp flip: append_Cons append_assoc)
qed

lemma addPackageImages_flat:
  "addPackageImages m pkg imgs
     = foldl (\<lambda>m e. m(entryId e \<mapsto> packageItemOf (fst e) (snd e))) m (map (Pair pkg) imgs)"
  unfolding addPackageImages_def
  by (induction imgs arbitrary: m) (simp_all add: entryId_def del: fun_upd_apply)

lemma foldl_packages_flat:
  "foldl (\<lambda>lookup (pkg, imgs). addPackageImages lookup pkg imgs) m config
     = foldl (\<lambda>m e. m(entryId e \<mapsto> packageItemOf (fst e) (snd e))) m (catalogEntries config)"
proof (induction config arbitrary: m)
  case Nil
  show ?case by (simp add: catalogEntries_def)
next
  case (Cons p ps)
  obtain pkg imgs where p: "p = (pkg, imgs)" by (cases p)
  let ?F = "\<lambda>lookup (pkg, imgs). addPackageImages lookup pkg imgs"
  let ?K = "\<lambda>(m :: string \<rightharpoonup> Item) e. m(entryId e \<mapsto> packageItemOf (fst e) (snd e))"
  have ce: "catalogEntries (p # ps) = map (Pair pkg) imgs @ catalogEntries ps"
    by (simp add: catalogEntries_def p)
  have "foldl ?F m (p # ps) = foldl ?F (addPackageImages m pkg imgs) ps"
    by (simp add: p)
  also have "\<dots> = foldl ?K (addPackageImages m pkg imgs) (catalogEntries ps)"
    by (rule Cons.IH)
  also have "\<dots> = foldl ?K (foldl ?K m (map (Pair pkg) imgs)) (catalogEntries ps)"
    by (simp only: addPackageImages_flat)
  also have "\<dots> = foldl ?K m (catalogEntries (p # ps))"
    by (simp only: ce foldl_append)
  finally show ?case .
qed

lemma initializePackageItemLookup_flat:
  "initializePackageItemLookup config
     = foldl (\<lambda>m e. m(entryId e \<mapsto> packageItemOf (fst e) (snd e))) Map.empty (catalogEntries config)"
  by (simp add: initializePackageItemLookup_def foldl_packages_flat)

text \<open>
  C9 (as stated). The claim: every entry's id is mapped to an item whose content is the
  label if present and otherwise the file name with its extension stripped, and whose
  image path is built from the entry's package and file name. Three inputs where the code
  does otherwise: a file name with two dots (the code keeps the part before the first
  dot); an empty label (the code falls back to the file name); two entries with the same
  id (the later entry overwrites the earlier one).
\<close>

theorem C9_catalog_lookup_counterexample:
  "map_option content
      (initializePackageItemLookup [(''p'', [\<lparr>filename = ''a.b.png'', label = None\<rparr>])]
         ''p-a.b.png'') = Some ''a''
   \<and> stripExtension ''a.b.png'' = ''a.b''
   \<and> map_option content
      (initializePackageItemLookup [(''p'', [\<lparr>filename = ''a.png'', label = Some ''''\<rparr>])]
         ''p-a.png'') = Some ''a''
   \<and> map_option imageUrl
      (initializePackageItemLookup
         [(''a'', [\<lparr>filename = ''b-c.png'', label = None\<rparr>]),
          (''a-b'', [\<lparr>filename = ''c.png'', label = None\<rparr>])]
         ''a-b-c.png'') = Some (Some ''/images/a-b/c.png'')"
  by code_simp

text \<open>
  C9 (amended). For every entry of the catalog that no later entry shares its id with,
  the lookup maps the id \<^verbatim>\<open><catalogName>-<filename>\<close> to the item with this id, whose
  content is the label if the entry has a label that is not empty and otherwise the part
  of the file name before its first dot, and whose image path is
  \<^verbatim>\<open>/images/<catalogName>/<filename>\<close>.
\<close>

theorem C9_catalog_lookup_entry:
  assumes "catalogEntries config = before @ (pkg, img) # after"
      and "pkg @ ''-'' @ filename img \<notin> set (map entryId after)"
  shows "initializePackageItemLookup config (pkg @ ''-'' @ filename img)
         = Some \<lparr>item_id = pkg @ ''-'' @ filename img,
                 content = (case label img of
                              Some l \<Rightarrow> if l \<noteq> '''' then l
                                        else takeWhile (\<lambda>ch. ch \<noteq> CHR ''.'') (filename img)
                            | None \<Rightarrow> takeWhile (\<lambda>ch. ch \<noteq> CHR ''.'') (filename img)),
                 imageUrl = Some (''/images/'' @ pkg @ ''/'' @ filename img)\<rparr>"
proof -
  have k: "entryId (pkg, img) = pkg @ ''-'' @ filename img" by (simp add: entryId_def)
  have "initializePackageItemLookup config (entryId (pkg, img))
        = Some (packageItemOf (fst (pkg, img)) (snd (pkg, img)))"
    unfolding initializePackageItemLookup_flat assms(1)
    by (rule foldl_update_lookup) (use assms(2) k in simp)
  then show ?thesis
    unfolding k packageItemOf_def splitDotFirst_def by (simp split: option.splits)
qed


theorem C9_catalog_lookup_entry_witness:
  "initializePackageItemLookup
      [(''p'', [\<lparr>filename = ''a.png'', label = Some ''Alpha''\<rparr>,
                \<lparr>filename = ''b.c.webp'', label = None\<rparr>]),
       (''q'', [\<lparr>filename = ''a.png'', label = None\<rparr>])]
      ''p-b.c.webp''
   = Some \<lparr>item_id = ''p-b.c.webp'', content = ''b'', imageUrl = Some ''/images/p/b.c.webp''\<rparr>"
  using C9_catalog_lookup_entry [of
      "[(''p'', [\<lparr>filename = ''a.png'', label = Some ''Alpha''\<rparr>,
                 \<lparr>filename = ''b.c.webp'', label = None\<rparr>]),
        (''q'', [\<lparr>filename = ''a.png'', label = None\<rparr>])]"
      "[(''p'', \<lparr>filename = ''a.png'', label = Some ''Alpha''\<rparr>)]"
      "''p''" "\<lparr>filename = ''b.c.webp'', label = None\<rparr>"
      "[(''q'', \<lparr>filename = ''a.png'', label = None\<rparr>)]"]
  by (simp add: catalogEntries_def entryId_def)

section \<open>Item resolution\<close>

lemma propertyKey_string [simp]: "propertyKey h (Some (JStr s)) = Inr s"
  by (simp add: propertyKey_def)

text \<open>
  C7. For every id that the catalog lookup has an entry for, \<^verbatim>\<open>resolveItem\<close> returns the
  catalog's item, with the catalog's content and image, whatever the custom-item store
  holds and whatever fallback content is passed.
\<close>

theorem C7_catalog_entry_wins:
  assumes "packageItemLookup c itemId = Some p"
  shows "resolveItem h c (Some (JStr itemId)) fallbackContent
         = Inr (AnItem \<lparr>item_id = Some (JStr (item_id p)), content = Some (JStr (content p)),
                        imageUrl = imageUrl p\<rparr>)"
  using assms by (simp add: resolveItem_def getProperty_def itemValue_def)

theorem C7_catalog_entry_wins_witness:
  "map_of (customItemsMap (newTierCortex False ''https://tiers.example''
      [(''p'', [\<lparr>filename = ''a.png'', label = Some ''Alpha''\<rparr>])]
      [\<lparr>sc_i = ''p-a.png'', sc_c = ''Custom'', sc_d = ''data:custom''\<rparr>])) ''p-a.png''
     = Some \<lparr>sc_i = ''p-a.png'', sc_c = ''Custom'', sc_d = ''data:custom''\<rparr>
   \<and> resolveItem referenceHost (newTierCortex False ''https://tiers.example''
      [(''p'', [\<lparr>filename = ''a.png'', label = Some ''Alpha''\<rparr>])]
      [\<lparr>sc_i = ''p-a.png'', sc_c = ''Custom'', sc_d = ''data:custom''\<rparr>])
      (Some (JStr ''p-a.png'')) (Some (JStr ''Fallback''))
     = Inr (AnItem \<lparr>item_id = Some (JStr ''p-a.png''), content = Some (JStr ''Alpha''),
                    imageUrl = Some ''/images/p/a.png''\<rparr>)"
  using C7_catalog_entry_wins [of "newTierCortex False ''https://tiers.example''
      [(''p'', [\<lparr>filename = ''a.png'', label = Some ''Alpha''\<rparr>])]
      [\<lparr>sc_i = ''p-a.png'', sc_c = ''Custom'', sc_d = ''data:custom''\<rparr>]"
      "''p-a.png''"
      "\<lparr>item_id = ''p-a.png'', content = ''Alpha'', imageUrl = Some ''/images/p/a.png''\<rparr>"
      referenceHost "Some (JStr ''Fallback'')"]
  by code_simp

text \<open>
  On the client, when \<^verbatim>\<open>packageItemLookup[id]\<close> is \<^verbatim>\<open>undefined\<close> and the custom-item store
  holds the id, the item returned has the fallback content passed in, not the content of
  the stored record, and the stored record's image data.
\<close>

lemma resolveItem_custom_item:
  assumes "getProperty (packageItemLookup c) itemId = Undefined"
      and "\<not> isServer c"
      and "map_of (customItemsMap c) itemId = Some stored"
  shows "resolveItem h c (Some (JStr itemId)) fallbackContent
         = Inr (AnItem \<lparr>item_id = Some (JStr (sc_i stored)), content = fallbackContent,
                        imageUrl = Some (sc_d stored)\<rparr>)"
  using assms by (simp add: resolveItem_def customItemsGet_def)

text \<open>
  C10. The claim: for every id absent from the catalog lookup and present in the
  custom-item store, on the client, \<^verbatim>\<open>resolveItem\<close> returns an item with the fallback
  content and the stored image data. The catalog lookup is a plain object, and
  \<^verbatim>\<open>packageItemLookup[itemId]\<close> also finds what the object inherits. For the id
  \<^verbatim>\<open>toString\<close>, which the catalog does not hold and which \<^verbatim>\<open>addCustomItems\<close> has put
  into the custom-item store, \<^verbatim>\<open>resolveItem\<close> returns the inherited member
  \<^verbatim>\<open>Object.prototype.toString\<close>, not an item. For the stored id \<^verbatim>\<open>custom-1\<close> it returns
  the item the claim describes.
\<close>

theorem C10_inherited_member_shadows_custom_item:
  "\<not> isServer (fst (addCustomItems referenceHost
        [\<lparr>item_id = ''toString'', content = ''Stored'', imageUrl = Some ''data:stored''\<rparr>]
        (exampleCortex False ''https://tiers.example'', Map.empty)))
   \<and> packageItemLookup (fst (addCustomItems referenceHost
        [\<lparr>item_id = ''toString'', content = ''Stored'', imageUrl = Some ''data:stored''\<rparr>]
        (exampleCortex False ''https://tiers.example'', Map.empty))) ''toString'' = None
   \<and> map_of (customItemsMap (fst (addCustomItems referenceHost
        [\<lparr>item_id = ''toString'', content = ''Stored'', imageUrl = Some ''data:stored''\<rparr>]
        (exampleCortex False ''https://tiers.example'', Map.empty)))) ''toString''
     = Some \<lparr>sc_i = ''toString'', sc_c = ''Stored'', sc_d = ''data:stored''\<rparr>
   \<and> resolveItem referenceHost (fst (addCustomItems referenceHost
        [\<lparr>item_id = ''toString'', content = ''Stored'', imageUrl = Some ''data:stored''\<rparr>]
        (exampleCortex False ''https://tiers.example'', Map.empty)))
        (Some (JStr ''toString'')) (Some (JStr ''Fallback''))
     = Inr (PrototypeMember ''toString'')
   \<and> resolveItem referenceHost (exampleCortex False ''https://tiers.example'')
        (Some (JStr ''custom-1'')) (Some (JStr ''Fallback''))
     = Inr (AnItem \<lparr>item_id = Some (JStr ''custom-1''), content = Some (JStr ''Fallback''),
                    imageUrl = Some ''data:stored''\<rparr>)"
  by code_simp

section \<open>Decoding a URL token\<close>

lemma mapM_Inl_iff: "mapM f xs = Inl TypeError \<longleftrightarrow> list_ex (\<lambda>x. f x = Inl TypeError) xs"
proof (induction xs)
  case Nil
  show ?case by simp
next
  case (Cons x xs)
  show ?case
  proof (cases "f x")
    case (Inl e)
    then show ?thesis by (cases e) simp
  next
    case (Inr y)
    show ?thesis
    proof (cases "mapM f xs")
      case (Inl e)
      with Inr Cons show ?thesis by (cases e) simp
    next
      case (Inr ys)
      with \<open>f x = Inr y\<close> Cons show ?thesis by simp
    qed
  qed
qed

lemma resolveItem_Inl_iff:
  "resolveItem h c i cont = Inl TypeError \<longleftrightarrow> resolveThrows h c i"
proof (cases "propertyKey h i")
  case (Inl e)
  then show ?thesis by (cases e) (simp add: resolveItem_def resolveThrows_def)
next
  case (Inr key)
  show ?thesis
  proof (cases "getProperty (packageItemLookup c) key")
    case Undefined
    show ?thesis
    proof (cases "isServer c \<or> customItemsGet c i = None")
      case True
      then have n: "(if \<not> isServer c then customItemsGet c i else None) = None" by auto
      show ?thesis
        using Inr Undefined True
        by (cases "newURL h ''/placeholder-image.jpg'' (baseUrl c)")
           (simp_all add: resolveItem_def resolveThrows_def n createPlaceholderItem_def
              getAbsoluteUrl_def)
    next
      case False
      then obtain r where "(if \<not> isServer c then customItemsGet c i else None) = Some r" by auto
      with Inr Undefined False show ?thesis
        by (simp add: resolveItem_def resolveThrows_def)
    qed
  qed (use Inr in \<open>simp_all add: resolveItem_def resolveThrows_def\<close>)
qed

lemma decodeItem_Inl_iff:
  "it \<noteq> JNull \<Longrightarrow> decodeItem h c it = Inl TypeError \<longleftrightarrow> resolveThrows h c (itemKey it)"
  by (cases it) (simp_all add: decodeItem_def itemKey_def resolveItem_Inl_iff)

lemma decodeItem_null: "decodeItem h c JNull = Inl TypeError"
  by (simp add: decodeItem_def)

lemma decodeTier_rejected: "\<not> tierAccepted t \<Longrightarrow> decodeTier h c t = Inl TypeError"
proof -
  assume na: "\<not> tierAccepted t"
  show ?thesis
  proof (cases "readProperty t ''t''")
    case (Inl e)
    then have "t = JNull" by (cases t) auto
    then show ?thesis by (simp add: decodeTier_def)
  next
    case (Inr v)
    have ri: "\<exists>a. readProperty t ''i'' = Inr a" and rn: "\<exists>a. readProperty t ''n'' = Inr a"
      using Inr by (cases t; simp)+
    show ?thesis
    proof (cases v)
      case None
      with Inr ri rn show ?thesis by (auto simp: decodeTier_def)
    next
      case (Some j)
      show ?thesis
      proof (cases j)
        case (JArr its)
        with na Inr Some have "list_ex (\<lambda>it. it = JNull) its"
          by (auto simp: tierAccepted_def itemsAccepted_def list_ex_iff list_all_iff)
        then have "list_ex (\<lambda>it. decodeItem h c it = Inl TypeError) its"
          using decodeItem_null[of h c] by (force simp: list_ex_iff)
        then have "mapM (decodeItem h c) its = Inl TypeError" by (simp add: mapM_Inl_iff)
        with Inr Some JArr ri rn show ?thesis by (auto simp: decodeTier_def)
      qed (use Inr Some ri rn in \<open>auto simp: decodeTier_def\<close>)
    qed
  qed
qed

lemma decodeTier_accepted:
  assumes acc: "tierAccepted t"
  shows "decodeTier h c t = Inl TypeError
         \<longleftrightarrow> list_ex (\<lambda>it. resolveThrows h c (itemKey it)) (tierItems t)"
proof -
  from acc obtain its where t: "readProperty t ''t'' = Inr (Some (JArr its))"
    and nn: "list_all (\<lambda>it. it \<noteq> JNull) its"
    by (auto simp: tierAccepted_def itemsAccepted_def split: sum.splits option.splits json.splits)
  have ri: "\<exists>a. readProperty t ''i'' = Inr a" and rn: "\<exists>a. readProperty t ''n'' = Inr a"
    using t by (cases t; simp)+
  have ti: "tierItems t = its" using t by (simp add: tierItems_def)
  have "list_ex (\<lambda>it. decodeItem h c it = Inl TypeError) its
        \<longleftrightarrow> list_ex (\<lambda>it. resolveThrows h c (itemKey it)) its"
    using nn by (auto simp: list_ex_iff list_all_iff decodeItem_Inl_iff)
  then have m: "mapM (decodeItem h c) its = Inl TypeError
        \<longleftrightarrow> list_ex (\<lambda>it. resolveThrows h c (itemKey it)) its"
    by (simp add: mapM_Inl_iff)
  show ?thesis
  proof (cases "mapM (decodeItem h c) its")
    case (Inl e)
    then have "mapM (decodeItem h c) its = Inl TypeError" by (cases e) simp
    with m t ri rn ti show ?thesis by (auto simp: decodeTier_def)
  next
    case (Inr ys)
    with m t ri rn ti show ?thesis by (auto simp: decodeTier_def)
  qed
qed

text \<open>
  C8 (as stated). The claim: \<^verbatim>\<open>decodeTierStateFromURL\<close> returns \<^verbatim>\<open>null\<close> whenever the
  parsed structure does not match the expected tier shape. The code checks nothing; only
  what makes its traversal throw is rejected. The JSON texts \<^verbatim>\<open>[{"t":[]}]\<close> (a tier
  without id and name), \<^verbatim>\<open>[{"i":5,"n":null,"t":[]}]\<close> (a number as id, \<^verbatim>\<open>null\<close> as name)
  and \<^verbatim>\<open>[{"t":[{"i":7}]}]\<close> (an item with a number as id and no content) are decoded to
  a tier, not to \<^verbatim>\<open>null\<close>.
\<close>

theorem C8_shape_mismatch_counterexample:
  \<open>decodeTierStateFromURL referenceHost (exampleCortex True '''') ''Z[{"t":[]}]''
     = Some [\<lparr>tier_id = None, name = None, items = [], labelPosition = None, placeholder = None\<rparr>]
   \<and> decodeTierStateFromURL referenceHost (exampleCortex True '''') ''Z[{"i":5,"n":null,"t":[]}]''
     = Some [\<lparr>tier_id = Some (JNum 5), name = Some JNull, items = [],
              labelPosition = None, placeholder = None\<rparr>]
   \<and> decodeTierStateFromURL referenceHost (exampleCortex False ''https://tiers.example'')
        ''Z[{"t":[{"i":7}]}]''
     = Some [\<lparr>tier_id = None, name = None,
              items = [AnItem \<lparr>item_id = Some (JNum 7), content = None,
                         imageUrl = Some ''https://tiers.example/placeholder-image.jpg''\<rparr>],
              labelPosition = None, placeholder = None\<rparr>]\<close>
  by code_simp

text \<open>
  C8 (amended). \<^verbatim>\<open>decodeTierStateFromURL\<close> never throws: its result is \<^verbatim>\<open>null\<close> or a
  list of tiers, for every input string. It returns \<^verbatim>\<open>null\<close> when the decompression
  returns \<^verbatim>\<open>null\<close> or the empty string and when the decompressed text is not valid
  JSON. For a parsed value it returns \<^verbatim>\<open>null\<close> exactly when the traversal throws: the
  value is not an array of values other than \<^verbatim>\<open>null\<close> that each have an array \<^verbatim>\<open>t\<close> of
  values other than \<^verbatim>\<open>null\<close>, or \<^verbatim>\<open>resolveItem\<close> throws for the \<^verbatim>\<open>i\<close> of one of the
  items, because the value has no property key or because nothing is found for it and the
  placeholder image URL cannot be built. In every other case the result is not \<^verbatim>\<open>null\<close>,
  whatever the properties \<^verbatim>\<open>i\<close>, \<^verbatim>\<open>n\<close> and \<^verbatim>\<open>c\<close> hold.
\<close>

theorem C8_decode_null_cases:
  "(case decompressFromEncodedURIComponent h s of
      None \<Rightarrow> decodeTierStateFromURL h c s = None
    | Some jsonString \<Rightarrow>
        if jsonString = '''' then decodeTierStateFromURL h c s = None
        else (case JSON_parse h jsonString of
                None \<Rightarrow> decodeTierStateFromURL h c s = None
              | Some parsed \<Rightarrow>
                  (decodeTierStateFromURL h c s = None)
                  = (\<not> shapeAccepted parsed
                     \<or> list_ex (\<lambda>it. resolveThrows h c (itemKey it)) (parsedItems parsed))))"
proof -
  have rej: "arrayMap (decodeTier h c) (Some parsed) = Inl TypeError"
    if "\<not> shapeAccepted parsed" for parsed
  proof (cases parsed)
    case (JArr ts)
    with that have "list_ex (\<lambda>t. \<not> tierAccepted t) ts"
      by (auto simp: shapeAccepted_def list_ex_iff list_all_iff)
    then have "list_ex (\<lambda>t. decodeTier h c t = Inl TypeError) ts"
      using decodeTier_rejected[of _ h c] by (force simp: list_ex_iff)
    then show ?thesis by (simp add: JArr mapM_Inl_iff)
  qed simp_all
  have acc: "arrayMap (decodeTier h c) (Some parsed) = Inl TypeError
             \<longleftrightarrow> list_ex (\<lambda>it. resolveThrows h c (itemKey it)) (parsedItems parsed)"
    if "shapeAccepted parsed" for parsed
  proof -
    from that obtain ts where p: "parsed = JArr ts" and a: "list_all tierAccepted ts"
      by (auto simp: shapeAccepted_def split: json.splits)
    have "list_ex (\<lambda>t. decodeTier h c t = Inl TypeError) ts
          \<longleftrightarrow> list_ex (\<lambda>t. list_ex (\<lambda>it. resolveThrows h c (itemKey it)) (tierItems t)) ts"
      using a decodeTier_accepted[of _ h c] by (auto simp: list_ex_iff list_all_iff)
    also have "\<dots> \<longleftrightarrow> list_ex (\<lambda>it. resolveThrows h c (itemKey it)) (concat (map tierItems ts))"
      by (auto simp: list_ex_iff)
    finally show ?thesis by (simp add: p mapM_Inl_iff parsedItems_def)
  qed
  have none_iff: "(case v of Inl e \<Rightarrow> None | Inr ts \<Rightarrow> Some ts) = None \<longleftrightarrow> v = Inl TypeError"
    for v :: "js_error + (jsval, jsval resolved) TierOf list"
    by (cases v) (auto intro: js_error.exhaust)
  have main: "(decodeTierStateFromURL h c s = None)
                  = (\<not> shapeAccepted parsed
                     \<or> list_ex (\<lambda>it. resolveThrows h c (itemKey it)) (parsedItems parsed))"
    if "decompressFromEncodedURIComponent h s = Some js" "js \<noteq> ''''"
       "JSON_parse h js = Some parsed" for js parsed
  proof (cases "shapeAccepted parsed")
    case True
    with acc[OF True] that show ?thesis
      by (simp add: decodeTierStateFromURL_def decodeBody_def none_iff)
  next
    case False
    with rej[OF False] that show ?thesis
      by (simp add: decodeTierStateFromURL_def decodeBody_def none_iff)
  qed
  show ?thesis
    using main
    by (auto simp: decodeTierStateFromURL_def decodeBody_def split: option.splits)
qed

theorem C8_decode_null_cases_witness:
  \<open>decodeTierStateFromURL referenceHost (exampleCortex False ''https://tiers.example'') '''' = None
   \<and> decodeTierStateFromURL referenceHost (exampleCortex False ''https://tiers.example'') ''Z'' = None
   \<and> decodeTierStateFromURL referenceHost (exampleCortex False ''https://tiers.example'') ''Z[{'' = None
   \<and> decodeTierStateFromURL referenceHost (exampleCortex False ''https://tiers.example'')
        ''Z{"i":"tier-s","n":"S","t":[]}'' = None
   \<and> decodeTierStateFromURL referenceHost (exampleCortex False ''https://tiers.example'')
        ''Z[{"i":"tier-s","n":"S"}]'' = None
   \<and> decodeTierStateFromURL referenceHost (exampleCortex False ''https://tiers.example'')
        ''Z[{"i":"tier-s","n":"S","t":[null]}]'' = None
   \<and> decodeTierStateFromURL referenceHost (exampleCortex False ''https://tiers.example'')
        ''Z[{"i":"tier-s","n":"S","t":[{"i":{"toString":1},"c":"x"}]}]'' = None
   \<and> decodeTierStateFromURL referenceHost (exampleCortex True '''')
        ''Z[{"i":"tier-s","n":"S","t":[{"i":"u-9","c":"Foo"}]}]'' = None
   \<and> decodeTierStateFromURL referenceHost (exampleCortex True '''')
        ''Z[{"i":"tier-s","n":"S","t":[{"i":"p-a.png","c":"Foo"}]}]'' \<noteq> None
   \<and> decodeTierStateFromURL referenceHost (exampleCortex False ''https://tiers.example'')
        ''Z[{"i":"tier-s","n":"S","t":[{"i":"u-9","c":"Foo"}]}]'' \<noteq> None\<close>
  using C8_decode_null_cases [where h = referenceHost and s = "''''"
      and c = "exampleCortex False ''https://tiers.example''"]
    C8_decode_null_cases [where h = referenceHost and s = "''Z''"
      and c = "exampleCortex False ''https://tiers.example''"]
    C8_decode_null_cases [where h = referenceHost and s = "''Z[{''"
      and c = "exampleCortex False ''https://tiers.example''"]
    C8_decode_null_cases [where h = referenceHost and s = \<open>''Z{"i":"tier-s","n":"S","t":[]}''\<close>
      and c = "exampleCortex False ''https://tiers.example''"]
    C8_decode_null_cases [where h = referenceHost and s = \<open>''Z[{"i":"tier-s","n":"S"}]''\<close>
      and c = "exampleCortex False ''https://tiers.example''"]
    C8_decode_null_cases [where h = referenceHost and s = \<open>''Z[{"i":"tier-s","n":"S","t":[null]}]''\<close>
      and c = "exampleCortex False ''https://tiers.example''"]
    C8_decode_null_cases [where h = referenceHost
      and s = \<open>''Z[{"i":"tier-s","n":"S","t":[{"i":{"toString":1},"c":"x"}]}]''\<close>
      and c = "exampleCortex False ''https://tiers.example''"]
    C8_decode_null_cases [where h = referenceHost
      and s = \<open>''Z[{"i":"tier-s","n":"S","t":[{"i":"u-9","c":"Foo"}]}]''\<close>
      and c = "exampleCortex True ''''"]
    C8_decode_null_cases [where h = referenceHost
      and s = \<open>''Z[{"i":"tier-s","n":"S","t":[{"i":"p-a.png","c":"Foo"}]}]''\<close>
      and c = "exampleCortex True ''''"]
    C8_decode_null_cases [where h = referenceHost
      and s = \<open>''Z[{"i":"tier-s","n":"S","t":[{"i":"u-9","c":"Foo"}]}]''\<close>
      and c = "exampleCortex False ''https://tiers.example''"]
  by code_simp

section \<open>Round trip through the URL token\<close>

lemma mapM_Inr_projr:
  "(\<And>x. x \<in> set xs \<Longrightarrow> \<exists>y. f x = Inr y) \<Longrightarrow> mapM f xs = Inr (map (\<lambda>x. projr (f x)) xs)"
proof (induction xs)
  case Nil
  show ?case by simp
next
  case (Cons a xs)
  from Cons.prems[of a] obtain y where y: "f a = Inr y" by auto
  from Cons have "mapM f xs = Inr (map (\<lambda>x. projr (f x)) xs)" by simp
  with y show ?case by simp
qed

lemma mapM_map: "mapM g (map k xs) = mapM (\<lambda>x. g (k x)) xs"
  by (induction xs) (auto split: sum.splits)

lemma resolveItem_typed:
  assumes k: "keyedById c"
      and ni: "\<not> namesInheritedMember c item"
      and url: "newURL h ''/placeholder-image.jpg'' (baseUrl c) \<noteq> None \<or> \<not> needsPlaceholder c item"
  shows "\<exists>X. resolveItem h c (Some (JStr (item_id item))) (Some (JStr (content item))) = Inr (AnItem X)
           \<and> item_id X = Some (JStr (item_id item))
           \<and> content X = Some (JStr (case packageItemLookup c (item_id item) of
                                        Some p \<Rightarrow> content p | None \<Rightarrow> content item))"
proof (cases "packageItemLookup c (item_id item)")
  case (Some p)
  with k have "item_id p = item_id item" by (simp add: keyedById_def)
  with Some show ?thesis
    by (simp add: resolveItem_def getProperty_def propertyKey_def itemValue_def)
next
  case None
  with ni have u: "getProperty (packageItemLookup c) (item_id item) = Undefined"
    by (auto simp: namesInheritedMember_def getProperty_def)
  show ?thesis
  proof (cases "\<not> isServer c \<and> map_of (customItemsMap c) (item_id item) \<noteq> None")
    case True
    then obtain r where r: "map_of (customItemsMap c) (item_id item) = Some r" by auto
    with k have "sc_i r = item_id item" by (simp add: keyedById_def)
    with True r None u show ?thesis
      by (simp add: resolveItem_def propertyKey_def customItemsGet_def)
  next
    case False
    with None have "needsPlaceholder c item" by (auto simp: needsPlaceholder_def)
    with url obtain v where v: "newURL h ''/placeholder-image.jpg'' (baseUrl c) = Some v" by auto
    from False have "(if \<not> isServer c then customItemsGet c (Some (JStr (item_id item))) else None) = None"
      by (auto simp: customItemsGet_def)
    with None u v show ?thesis
      by (simp add: resolveItem_def propertyKey_def createPlaceholderItem_def getAbsoluteUrl_def)
  qed
qed

lemma decodeItem_simplified:
  "decodeItem h c (simplifiedItemValue \<lparr>si_i = i, si_c = cc\<rparr>)
     = resolveItem h c (Some (JStr i)) (Some (JStr cc))"
  by (simp add: decodeItem_def simplifiedItemValue_def)

lemma decodeTier_simplified:
  assumes k: "keyedById c"
      and ni: "\<not> list_ex (namesInheritedMember c) (items t)"
      and url: "newURL h ''/placeholder-image.jpg'' (baseUrl c) \<noteq> None
                \<or> \<not> list_ex (needsPlaceholder c) (items t)"
  shows "\<exists>D. decodeTier h c (simplifiedTierValue (simplifyTier t)) = Inr D
           \<and> idsAndContents D =
               (Some (JStr (tier_id t)), Some (JStr (name t)),
                map (\<lambda>item. Some (Some (JStr (item_id item)),
                       Some (JStr (case packageItemLookup c (item_id item) of
                                     Some p \<Rightarrow> content p | None \<Rightarrow> content item))))
                  (items t))"
proof -
  let ?f = "\<lambda>item. decodeItem h c (simplifiedItemValue \<lparr>si_i = item_id item, si_c = content item\<rparr>)"
  have each: "\<exists>X. ?f item = Inr (AnItem X)
           \<and> item_id X = Some (JStr (item_id item))
           \<and> content X = Some (JStr (case packageItemLookup c (item_id item) of
                                        Some p \<Rightarrow> content p | None \<Rightarrow> content item))"
    if "item \<in> set (items t)" for item
    unfolding decodeItem_simplified
    by (rule resolveItem_typed[OF k]) (use that ni url in \<open>auto simp: list_ex_iff\<close>)
  have m: "mapM (decodeItem h c)
             (map simplifiedItemValue
                (map (\<lambda>item. \<lparr>si_i = item_id item, si_c = content item\<rparr>) (items t)))
           = Inr (map (\<lambda>item. projr (?f item)) (items t))"
  proof -
    have "mapM ?f (items t) = Inr (map (\<lambda>item. projr (?f item)) (items t))"
      by (rule mapM_Inr_projr) (use each in blast)
    then show ?thesis by (simp add: mapM_map comp_def)
  qed
  have v: "map idAndContent (map (\<lambda>item. projr (?f item)) (items t))
           = map (\<lambda>item. Some (Some (JStr (item_id item)),
                       Some (JStr (case packageItemLookup c (item_id item) of
                                     Some p \<Rightarrow> content p | None \<Rightarrow> content item))))
               (items t)"
    unfolding map_map
  proof (rule map_cong[OF refl])
    fix item assume "item \<in> set (items t)"
    from each[OF this] obtain X where X: "?f item = Inr (AnItem X)"
      "item_id X = Some (JStr (item_id item))"
      "content X = Some (JStr (case packageItemLookup c (item_id item) of
                                        Some p \<Rightarrow> content p | None \<Rightarrow> content item))"
      by blast
    then show "(idAndContent \<circ> (\<lambda>item. projr (?f item))) item
        = Some (Some (JStr (item_id item)),
                Some (JStr (case packageItemLookup c (item_id item) of
                              Some p \<Rightarrow> content p | None \<Rightarrow> content item)))"
      by (simp add: idAndContent_def)
  qed
  have "decodeTier h c (simplifiedTierValue (simplifyTier t))
        = Inr \<lparr>tier_id = Some (JStr (tier_id t)), name = Some (JStr (name t)),
               items = map (\<lambda>item. projr (?f item)) (items t),
               labelPosition = None, placeholder = None\<rparr>"
    using m by (simp add: decodeTier_def simplifiedTierValue_def simplifyTier_def)
  with v show ?thesis by (simp add: idsAndContents_def)
qed

lemma initializePackageItemLookup_keyed:
  "initializePackageItemLookup config k = Some p \<Longrightarrow> item_id p = k"
proof -
  have "\<forall>k p. foldl (\<lambda>m e. m(entryId e \<mapsto> packageItemOf (fst e) (snd e))) m es k = Some p
          \<longrightarrow> item_id p = k"
    if "\<forall>k p. m k = Some p \<longrightarrow> item_id p = k" for es and m :: "string \<rightharpoonup> Item"
    using that
  proof (induction es arbitrary: m)
    case Nil
    then show ?case by simp
  next
    case (Cons e es)
    have "\<forall>k p. (m(entryId e \<mapsto> packageItemOf (fst e) (snd e))) k = Some p \<longrightarrow> item_id p = k"
      using Cons.prems by (auto simp: packageItemOf_def entryId_def)
    then show ?case unfolding foldl.simps by (rule Cons.IH)
  qed
  from this[of Map.empty] show "initializePackageItemLookup config k = Some p \<Longrightarrow> item_id p = k"
    by (simp add: initializePackageItemLookup_flat)
qed

lemma foldl_map_of_keyed:
  assumes "\<forall>k r. map_of m k = Some r \<longrightarrow> sc_i r = k"
  shows "\<forall>k r. map_of (foldl (\<lambda>m item. AList.update (sc_i item) item m) m xs) k = Some r
           \<longrightarrow> sc_i r = k"
  using assms
proof (induction xs arbitrary: m)
  case Nil
  then show ?case by simp
next
  case (Cons a xs)
  have "\<forall>k r. map_of (AList.update (sc_i a) a m) k = Some r \<longrightarrow> sc_i r = k"
    using Cons.prems by (auto simp: update_conv')
  then show ?case unfolding foldl.simps by (rule Cons.IH)
qed

lemma newTierCortex_keyedById: "keyedById (newTierCortex server base config stored)"
proof -
  have a: "\<forall>k p. packageItemLookup (newTierCortex server base config stored) k = Some p
            \<longrightarrow> item_id p = k"
  proof -
    have "packageItemLookup (newTierCortex server base config stored)
          = initializePackageItemLookup config"
      by (simp add: newTierCortex_def)
    then show ?thesis using initializePackageItemLookup_keyed by metis
  qed
  have e: "\<forall>k r. map_of ([] :: (string \<times> StoredCustomItem) list) k = Some r \<longrightarrow> sc_i r = k"
    by simp
  have b: "\<forall>k r. map_of (customItemsMap (newTierCortex server base config stored)) k = Some r
            \<longrightarrow> sc_i r = k"
  proof (cases server)
    case True
    then have "customItemsMap (newTierCortex server base config stored) = []"
      by (simp add: newTierCortex_def)
    then show ?thesis using e by metis
  next
    case False
    then have "customItemsMap (newTierCortex server base config stored)
        = foldl (\<lambda>m item. AList.update (sc_i item) item m) [] stored"
      by (simp add: newTierCortex_def initializeCustomItemsMap_def)
    then show ?thesis using foldl_map_of_keyed[OF e, of stored] by metis
  qed
  from a b show ?thesis unfolding keyedById_def by blast
qed

lemma addCustomItems_keyedById:
  assumes "keyedById c"
  shows "keyedById (fst (addCustomItems h its (c, storage)))"
proof (cases "isServer c")
  case True
  then have "fst (addCustomItems h its (c, storage)) = c" by (simp add: addCustomItems_def)
  with assms show ?thesis by (simp only:)
next
  case False
  let ?new = "map (\<lambda>item. \<lparr>sc_i = item_id item, sc_c = content item,
                      sc_d = (case imageUrl item of Some u \<Rightarrow> u | None \<Rightarrow> '''')\<rparr>) its"
  let ?m = "foldl (\<lambda>m item. AList.update (sc_i item) item m) (customItemsMap c) ?new"
  from assms have "\<forall>k r. map_of (customItemsMap c) k = Some r \<longrightarrow> sc_i r = k"
    unfolding keyedById_def by blast
  from foldl_map_of_keyed[OF this, of ?new]
  have b: "\<forall>k r. map_of ?m k = Some r \<longrightarrow> sc_i r = k" .
  have c': "fst (addCustomItems h its (c, storage)) = c\<lparr>customItemsMap := ?m\<rparr>"
    using False by (simp add: addCustomItems_def Let_def)
  from assms have a: "\<forall>k p. packageItemLookup c k = Some p \<longrightarrow> item_id p = k"
    unfolding keyedById_def by blast
  have p1: "packageItemLookup (c\<lparr>customItemsMap := ?m\<rparr>) = packageItemLookup c" by simp
  have p2: "customItemsMap (c\<lparr>customItemsMap := ?m\<rparr>) = ?m" by simp
  show ?thesis
    unfolding c' keyedById_def p1 p2 using a b by blast
qed

text \<open>
  C2 (as stated). The claim: decoding the encoded board gives back every item content.
  For an item whose id the catalog knows, \<^verbatim>\<open>resolveItem\<close> returns the catalog's item:
  the content \<^verbatim>\<open>Renamed\<close> of the item \<^verbatim>\<open>p-a.png\<close> comes back as the catalog's
  \<^verbatim>\<open>Alpha\<close>. On a server without base URL the placeholder for an unknown item cannot be
  built and the decoder returns \<^verbatim>\<open>null\<close>. An item id that names a member of
  \<^verbatim>\<open>Object.prototype\<close> comes back as that member, not as an item.
\<close>

theorem C2_round_trip_counterexample:
  "map_option (map idsAndContents)
     (decodeTierStateFromURL referenceHost (exampleCortex False ''https://tiers.example'')
        (encodeTierStateForURL referenceHost [mkTier ''tier-s'' ''S'' [mkItem ''p-a.png'' ''Renamed'']]))
   = Some [(Some (JStr ''tier-s''), Some (JStr ''S''),
            [Some (Some (JStr ''p-a.png''), Some (JStr ''Alpha''))])]
  \<and> decodeTierStateFromURL referenceHost (exampleCortex True '''')
        (encodeTierStateForURL referenceHost [mkTier ''tier-s'' ''S'' [mkItem ''u-9'' ''Unknown'']])
     = None
  \<and> map_option (map idsAndContents)
     (decodeTierStateFromURL referenceHost (exampleCortex False ''https://tiers.example'')
        (encodeTierStateForURL referenceHost [mkTier ''tier-s'' ''S'' [mkItem ''toString'' ''T'']]))
   = Some [(Some (JStr ''tier-s''), Some (JStr ''S''), [None])]"
  by code_simp

text \<open>
  C2 (amended). Let the host invert its compression and its JSON text at the board, let
  the cortex hold its records under their ids, let no item id of the board name an
  inherited member of the lookup object, and let the placeholder URL be constructible or
  no item need it. Then decoding the encoded board gives a board with the same tier ids
  and names in the same order and, per tier, the same item ids in the same order; the
  content of an item is the catalog's content when the catalog knows the item's id, and
  the content on the board otherwise.
\<close>

theorem C2_round_trip:
  assumes host: "hostInverts h B"
      and k: "keyedById c"
      and ni: "\<not> list_ex (\<lambda>t. list_ex (namesInheritedMember c) (items t)) B"
      and url: "newURL h ''/placeholder-image.jpg'' (baseUrl c) \<noteq> None
                \<or> \<not> list_ex (\<lambda>t. list_ex (needsPlaceholder c) (items t)) B"
  shows "map_option (map idsAndContents)
           (decodeTierStateFromURL h c (encodeTierStateForURL h B))
         = Some (map (\<lambda>t. (Some (JStr (tier_id t)), Some (JStr (name t)),
                   map (\<lambda>item. Some (Some (JStr (item_id item)),
                          Some (JStr (case packageItemLookup c (item_id item) of
                                        Some p \<Rightarrow> content p | None \<Rightarrow> content item))))
                     (items t))) B)"
proof -
  let ?f = "\<lambda>t. decodeTier h c (simplifiedTierValue (simplifyTier t))"
  let ?v = "\<lambda>t. (Some (JStr (tier_id t)), Some (JStr (name t)),
                   map (\<lambda>item. Some (Some (JStr (item_id item)),
                          Some (JStr (case packageItemLookup c (item_id item) of
                                        Some p \<Rightarrow> content p | None \<Rightarrow> content item))))
                     (items t))"
  have each: "\<exists>D. ?f t = Inr D \<and> idsAndContents D = ?v t" if "t \<in> set B" for t
    by (rule decodeTier_simplified[OF k]) (use that ni url in \<open>auto simp: list_ex_iff\<close>)
  have "mapM ?f B = Inr (map (\<lambda>t. projr (?f t)) B)"
    by (rule mapM_Inr_projr) (use each in blast)
  then have m: "mapM (decodeTier h c) (map simplifiedTierValue (map simplifyTier B))
                = Inr (map (\<lambda>t. projr (?f t)) B)"
    by (simp add: mapM_map)
  have body: "decodeBody h c (encodeTierStateForURL h B) = Inr (map (\<lambda>t. projr (?f t)) B)"
    using host m
    by (simp add: decodeBody_def encodeTierStateForURL_def hostInverts_def Let_def encodedValue_def)
  have v: "map idsAndContents (map (\<lambda>t. projr (?f t)) B) = map ?v B"
    unfolding map_map
  proof (rule map_cong[OF refl])
    fix t assume "t \<in> set B"
    from each[OF this] obtain D where "?f t = Inr D" "idsAndContents D = ?v t" by blast
    then show "(idsAndContents \<circ> (\<lambda>t. projr (?f t))) t = ?v t" by simp
  qed
  show ?thesis
    by (simp only: decodeTierStateFromURL_def body sum.case option.map v)
qed

theorem C2_round_trip_witness:
  "map_option (map idsAndContents)
     (decodeTierStateFromURL referenceHost (exampleCortex False ''https://tiers.example'')
        (encodeTierStateForURL referenceHost exampleBoard))
   = Some [(Some (JStr ''tier-s''), Some (JStr ''S''),
            [Some (Some (JStr ''p-a.png''), Some (JStr ''Alpha'')),
             Some (Some (JStr ''custom-1''), Some (JStr ''Mine''))]),
           (Some (JStr ''tier-a''), Some (JStr ''A''),
            [Some (Some (JStr ''u-9''), Some (JStr ''Unknown''))])]"
proof -
  have h1: "hostInverts referenceHost exampleBoard" by code_simp
  have h2: "keyedById (exampleCortex False ''https://tiers.example'')"
    unfolding exampleCortex_def by (rule newTierCortex_keyedById)
  have h3: "\<not> list_ex (\<lambda>t. list_ex (namesInheritedMember
                (exampleCortex False ''https://tiers.example'')) (items t)) exampleBoard"
    by code_simp
  have h4: "newURL referenceHost ''/placeholder-image.jpg''
              (baseUrl (exampleCortex False ''https://tiers.example'')) \<noteq> None
        \<or> \<not> list_ex (\<lambda>t. list_ex (needsPlaceholder
                (exampleCortex False ''https://tiers.example'')) (items t)) exampleBoard"
    by code_simp
  show ?thesis
    using C2_round_trip [OF h1 h2 h3 h4] by code_simp
qed

section \<open>The default template\<close>

lemma DEFAULT_TIER_TEMPLATE_refs: "DEFAULT_TIER_TEMPLATE = [3, 4, 5, 6, 7]"
  by code_simp

lemma DEFAULT_TIER_TEMPLATE_objects:
  "map (\<lambda>a. moduleHeap ! a) DEFAULT_TIER_TEMPLATE = map tierObject (template ''5rows'')"
  by code_simp

text \<open>
  C3. The claim: no operation modifies a template in place, so \<^verbatim>\<open>getInitialTiers\<close>
  without state and without item set always returns the default template with every item
  sequence empty. On the code, \<^verbatim>\<open>getInitialTiers\<close> with an item set copies the array
  \<^verbatim>\<open>DEFAULT_TIER_TEMPLATE\<close> but not its tier objects, and assigns the items to the last
  tier object of the template itself. On the fresh module the call without state and
  item set returns five empty tiers; after one call with the item set of package \<^verbatim>\<open>p\<close>
  and image \<^verbatim>\<open>a.png\<close>, the same call returns the template with that item in its last
  tier.
\<close>

theorem C3_item_set_call_modifies_default_template:
  "itemSequences (getInitialTiers referenceHost (exampleCortex True '''') None None moduleHeap)
     = Some [[], [], [], [], []]
   \<and> (case getInitialTiers referenceHost (exampleCortex True '''') None
             (Some \<lparr>packageName = ''p'', images = [''a.png'']\<rparr>) moduleHeap of
        Inl e \<Rightarrow> None
      | Inr (r, heap1) \<Rightarrow>
          itemSequences (getInitialTiers referenceHost (exampleCortex True '''') None None heap1))
     = Some [[], [], [], [],
             [AnItem \<lparr>item_id = ''p-a.png'', content = ''Alpha'',
                      imageUrl = Some ''/images/p/a.png''\<rparr>]]"
  by code_simp

end
